theory Spec2Isabelle
  imports Main
begin

section \<open>Python strings\<close>

text \<open>
  Messages, answers and dictionary keys are Python \<open>str\<close> values. They are modelled as
  \<open>string\<close>, one \<open>char\<close> per code point, for code points below 256 (Latin-1); the
  whitespace and case tables below are Python's for that range. Text beyond Latin-1 is
  outside the model.
\<close>

datatype error = ValueError | IndexError | KeyError | TypeError | AttributeError

definition is_space :: "char \<Rightarrow> bool" where
  \<comment> \<open>the characters \<open>str.strip()\<close> removes: \<open>str.isspace\<close> below U+0100\<close>
  "is_space c = (c \<in> set [CHR 0x09, CHR 0x0A, CHR 0x0B, CHR 0x0C, CHR 0x0D,
                            CHR 0x1C, CHR 0x1D, CHR 0x1E, CHR 0x1F, CHR 0x20,
                            CHR 0x85, CHR 0xA0])"

definition strip :: "string \<Rightarrow> string" where
  "strip s = rev (dropWhile is_space (rev (dropWhile is_space s)))"

definition upper_chars :: string where
  "upper_chars = ''ABCDEFGHIJKLMNOPQRSTUVWXYZ'' @
     [CHR 0xC0, CHR 0xC1, CHR 0xC2, CHR 0xC3, CHR 0xC4, CHR 0xC5, CHR 0xC6, CHR 0xC7,
      CHR 0xC8, CHR 0xC9, CHR 0xCA, CHR 0xCB, CHR 0xCC, CHR 0xCD, CHR 0xCE, CHR 0xCF,
      CHR 0xD0, CHR 0xD1, CHR 0xD2, CHR 0xD3, CHR 0xD4, CHR 0xD5, CHR 0xD6,
      CHR 0xD8, CHR 0xD9, CHR 0xDA, CHR 0xDB, CHR 0xDC, CHR 0xDD, CHR 0xDE]"

definition lower_chars :: string where
  "lower_chars = ''abcdefghijklmnopqrstuvwxyz'' @
     [CHR 0xE0, CHR 0xE1, CHR 0xE2, CHR 0xE3, CHR 0xE4, CHR 0xE5, CHR 0xE6, CHR 0xE7,
      CHR 0xE8, CHR 0xE9, CHR 0xEA, CHR 0xEB, CHR 0xEC, CHR 0xED, CHR 0xEE, CHR 0xEF,
      CHR 0xF0, CHR 0xF1, CHR 0xF2, CHR 0xF3, CHR 0xF4, CHR 0xF5, CHR 0xF6,
      CHR 0xF8, CHR 0xF9, CHR 0xFA, CHR 0xFB, CHR 0xFC, CHR 0xFD, CHR 0xFE]"

definition lower_char :: "char \<Rightarrow> char" where
  "lower_char c = (case map_of (zip upper_chars lower_chars) c of Some l \<Rightarrow> l | None \<Rightarrow> c)"

definition lower :: "string \<Rightarrow> string" where
  "lower s = map lower_char s"

fun split_on :: "char \<Rightarrow> string \<Rightarrow> string list" where
  \<comment> \<open>\<open>s.split(d)\<close> for a one-character separator: never the empty list\<close>
  "split_on d [] = [[]]"
| "split_on d (c # cs) =
     (if c = d then [] # split_on d cs
      else (case split_on d cs of [] \<Rightarrow> [[c]] | w # ws \<Rightarrow> (c # w) # ws))"

fun startswith :: "string \<Rightarrow> string \<Rightarrow> bool" where
  "startswith s [] = True"
| "startswith [] (p # ps) = False"
| "startswith (c # cs) (p # ps) = (c = p \<and> startswith cs ps)"

fun contains :: "string \<Rightarrow> string \<Rightarrow> bool" where
  \<comment> \<open>\<open>sub in s\<close>\<close>
  "contains sub [] = (sub = [])"
| "contains sub (c # cs) = (startswith (c # cs) sub \<or> contains sub cs)"

fun replace :: "string \<Rightarrow> string \<Rightarrow> string \<Rightarrow> string" where
  \<comment> \<open>\<open>s.replace(old, new)\<close>, left to right without overlap; the source only calls it
      with a non-empty \<open>old\<close>, and an empty \<open>old\<close> leaves \<open>s\<close> as it is here\<close>
  "replace old new [] = []"
| "replace old new (c # cs) =
     (if old \<noteq> [] \<and> startswith (c # cs) old
      then new @ replace old new (drop (length old - 1) cs)
      else c # replace old new cs)"

fun join :: "string \<Rightarrow> string list \<Rightarrow> string" where
  "join sep [] = []"
| "join sep [x] = x"
| "join sep (x # y # ys) = x @ sep @ join sep (y # ys)"

definition digit_val :: "char \<Rightarrow> nat option" where
  "digit_val c = map_of (zip ''0123456789'' [0, 1, 2, 3, 4, 5, 6, 7, 8, 9]) c"

fun str_nat :: "nat \<Rightarrow> string" where
  "str_nat n = (if n < 10 then [''0123456789'' ! n]
                else str_nat (n div 10) @ [''0123456789'' ! (n mod 10)])"

definition str_int :: "int \<Rightarrow> string" where
  \<comment> \<open>\<open>str(i)\<close>\<close>
  "str_int i = (if i < 0 then CHR ''-'' # str_nat (nat (- i)) else str_nat (nat i))"

fun int_digits :: "bool \<Rightarrow> nat \<Rightarrow> string \<Rightarrow> nat option" where
  \<comment> \<open>decimal digits, single underscores allowed between two digits\<close>
  "int_digits prev acc [] = (if prev then Some acc else None)"
| "int_digits prev acc (c # cs) =
     (case digit_val c of
        Some d \<Rightarrow> int_digits True (10 * acc + d) cs
      | None \<Rightarrow> if c = CHR ''_'' \<and> prev then int_digits False acc cs else None)"

definition py_int :: "string \<Rightarrow> error + int" where
  \<comment> \<open>\<open>int(s)\<close>: surrounding whitespace, an optional sign, decimal digits\<close>
  "py_int s =
     (case strip s of
        [] \<Rightarrow> Inl ValueError
      | c # cs \<Rightarrow>
          if c = CHR ''-'' then
            (case int_digits False 0 cs of None \<Rightarrow> Inl ValueError | Some n \<Rightarrow> Inr (- int n))
          else if c = CHR ''+'' then
            (case int_digits False 0 cs of None \<Rightarrow> Inl ValueError | Some n \<Rightarrow> Inr (int n))
          else
            (case int_digits False 0 (c # cs) of None \<Rightarrow> Inl ValueError | Some n \<Rightarrow> Inr (int n)))"

section \<open>Dates: \<open>datetime.strptime(s, "%Y-%m-%d").date()\<close>\<close>

record date =
  year :: int
  month :: int
  day :: int

definition is_leap :: "int \<Rightarrow> bool" where
  "is_leap y = (y mod 4 = 0 \<and> (y mod 100 \<noteq> 0 \<or> y mod 400 = 0))"

definition days_in_month :: "int \<Rightarrow> int \<Rightarrow> int" where
  "days_in_month y m =
     (if m = 2 then (if is_leap y then 29 else 28)
      else if m = 4 \<or> m = 6 \<or> m = 9 \<or> m = 11 then 30 else 31)"

definition days_before_year :: "int \<Rightarrow> int" where
  "days_before_year y = (y - 1) * 365 + (y - 1) div 4 - (y - 1) div 100 + (y - 1) div 400"

definition days_before_month :: "int \<Rightarrow> int \<Rightarrow> int" where
  "days_before_month y m =
     (\<Sum>k \<leftarrow> [1 ..< nat m]. days_in_month y (int k))"

definition toordinal :: "date \<Rightarrow> int" where
  "toordinal d = days_before_year (year d) + days_before_month (year d) (month d) + day d"

definition valid_date :: "date \<Rightarrow> bool" where
  "valid_date d = (1 \<le> year d \<and> year d \<le> 9999 \<and> 1 \<le> month d \<and> month d \<le> 12 \<and>
                   1 \<le> day d \<and> day d \<le> days_in_month (year d) (month d))"

definition digit2 :: "char \<Rightarrow> char \<Rightarrow> nat option" where
  "digit2 a b = (case (digit_val a, digit_val b) of
                   (Some x, Some y) \<Rightarrow> Some (10 * x + y) | _ \<Rightarrow> None)"

fun parse_month :: "string \<Rightarrow> (nat \<times> string) option" where
  \<comment> \<open>the directive \<open>%m\<close>: \<open>1[0-2]|0[1-9]|[1-9]\<close>, alternatives in this order\<close>
  "parse_month (a # b # rest) =
     (case digit2 a b of
        Some n \<Rightarrow> if 1 \<le> n \<and> n \<le> 12 then Some (n, rest)
                  else (case digit_val a of
                          Some x \<Rightarrow> if 1 \<le> x then Some (x, b # rest) else None
                        | None \<Rightarrow> None)
      | None \<Rightarrow> (case digit_val a of
                   Some x \<Rightarrow> if 1 \<le> x then Some (x, b # rest) else None
                 | None \<Rightarrow> None))"
| "parse_month [a] =
     (case digit_val a of Some x \<Rightarrow> if 1 \<le> x then Some (x, []) else None | None \<Rightarrow> None)"
| "parse_month [] = None"

fun parse_day :: "string \<Rightarrow> (nat \<times> string) option" where
  \<comment> \<open>the directive \<open>%d\<close>: \<open>3[0-1]|[1-2]\d|0[1-9]|[1-9]| [1-9]\<close>\<close>
  "parse_day (a # b # rest) =
     (case digit2 a b of
        Some n \<Rightarrow> if 1 \<le> n \<and> n \<le> 31 then Some (n, rest)
                  else (case digit_val a of
                          Some x \<Rightarrow> if 1 \<le> x then Some (x, b # rest) else None
                        | None \<Rightarrow> None)
      | None \<Rightarrow> (case digit_val a of
                   Some x \<Rightarrow> if 1 \<le> x then Some (x, b # rest) else None
                 | None \<Rightarrow> if a = CHR '' '' then
                             (case digit_val b of
                                Some y \<Rightarrow> if 1 \<le> y then Some (y, rest) else None
                              | None \<Rightarrow> None)
                           else None))"
| "parse_day [a] =
     (case digit_val a of Some x \<Rightarrow> if 1 \<le> x then Some (x, []) else None | None \<Rightarrow> None)"
| "parse_day [] = None"

fun parse_year :: "string \<Rightarrow> (nat \<times> string) option" where
  \<comment> \<open>the directive \<open>%Y\<close>: exactly four digits\<close>
  "parse_year (a # b # c # d # rest) =
     (case (digit2 a b, digit2 c d) of
        (Some hi, Some lo) \<Rightarrow> Some (100 * hi + lo, rest) | _ \<Rightarrow> None)"
| "parse_year _ = None"

definition strptime :: "string \<Rightarrow> error + date" where
  \<comment> \<open>\<open>datetime.strptime(s, "%Y-%m-%d").date()\<close>; every failure is a ValueError: no match,
      unconverted data after the day, year 0, a day the month does not have\<close>
  "strptime s =
     (case parse_year s of
        Some (y, CHR ''-'' # s1) \<Rightarrow>
          (case parse_month s1 of
             Some (m, CHR ''-'' # s2) \<Rightarrow>
               (case parse_day s2 of
                  Some (d, []) \<Rightarrow>
                    (let dt = \<lparr>year = int y, month = int m, day = int d\<rparr>
                     in if valid_date dt then Inr dt else Inl ValueError)
                | _ \<Rightarrow> Inl ValueError)
           | _ \<Rightarrow> Inl ValueError)
      | _ \<Rightarrow> Inl ValueError)"

section \<open>Data model\<close>

text \<open>
  The JSON documents of the source are dictionaries with a fixed set of keys; each is a
  record here. A key that is absent and a key that holds \<open>None\<close> are both \<open>None\<close>
  (the source reads them with \<open>dict.get\<close>, which does not tell them apart).
\<close>

type_synonym timestamp = nat

record household =
  adults :: int
  children :: int

record conv_context =
  primary_product :: string
  last_intent :: "string option"
  error_count :: int
  current_question_key :: "string option"
  policy_type_choice :: "string option"
  group_type_choice :: "string option"
  start_date :: "string option"
  end_date :: "string option"
  num_adults :: "int option"
  num_children :: "int option"
  num_adults_group :: "int option"
  num_households :: "int option"
  households_to_collect :: "int option"
  households_collected :: "int option"
  households_data :: "household list option"

record addons =
  preExAddOn :: "bool option"
  lossFFMAddOn :: "bool option"
  flightDelayAddOn :: "bool option"

record travellers =
  total :: "int option"
  child :: "int list"
  adult :: "int list"
  group :: int

record household_flags =
  hh_with_children :: string
  hh_with_spouse :: string

record travel_rec =
  policy_type :: string
  country_code :: "string list option"
  number_of_days :: "int option"
  zone :: "string option"
  with_children :: string
  with_spouse :: string
  with_group_of_adults :: string
  with_group_of_households :: string
  plan :: string
  selectedAddOns :: addons
  number_of_travellers :: travellers
  households_info :: "household_flags list option"

record promotion_rec =
  coupon_code :: "string option"

record leads_rec =
  email :: "string option"
  contact_mobile :: "string option"

record travel_payload =
  ProductCode :: string
  media_wcc :: string
  travel :: travel_rec
  promotion :: promotion_rec
  leads :: leads_rec

record internal_rec =
  internal_email :: "string option"
  internal_contact_mobile :: "string option"
  insured_party :: "string option"

record family_payload =
  product_code :: string
  policyInceptionDate :: "string option"
  mediaWCC :: string
  IsCEPCustomer :: bool
  IsCEPFirstTimeCustomer :: bool
  hasRider :: bool
  premiumType :: "string option"
  promoCode :: "string option"
  CEPReferralCode :: "string option"
  withChildren :: bool
  withSpouse :: bool
  internal :: "internal_rec option"

datatype reply = Text string | Quote string

record collected =
  ci_payload :: "travel_payload option"
  ci_family_payload :: "family_payload option"

record session =
  session_id :: string
  stage :: string
  chat_history :: "(string \<times> reply) list"
  collected_info :: collected
  conversation_context :: conv_context
  last_active :: timestamp

text \<open>The store holds at most one document for the session identifier at hand.\<close>

type_synonym store = "session option"

section \<open>Session store (\<open>app/session_manager.py\<close>)\<close>

text \<open>
  Every function takes the clock reading \<open>now\<close> that \<open>datetime.now()\<close> returns while
  the message is handled. The store's failures and the expiry of keys are outside the model.
\<close>

definition empty_context :: conv_context where
  "empty_context = \<lparr>primary_product = ''UNKNOWN'', last_intent = None, error_count = 0,
     current_question_key = None, policy_type_choice = None, group_type_choice = None,
     start_date = None, end_date = None, num_adults = None, num_children = None,
     num_adults_group = None, num_households = None, households_to_collect = None,
     households_collected = None, households_data = None\<rparr>"

definition get_default_session :: "timestamp \<Rightarrow> string \<Rightarrow> session" where
  "get_default_session now sid = \<lparr>session_id = sid, stage = ''initial'', chat_history = [],
     collected_info = \<lparr>ci_payload = None, ci_family_payload = None\<rparr>,
     conversation_context = empty_context, last_active = now\<rparr>"

definition load :: "timestamp \<Rightarrow> string \<Rightarrow> store \<Rightarrow> session" where
  \<comment> \<open>\<open>json.loads(session_data_str) if session_data_str else get_default_session(session_id)\<close>\<close>
  "load now sid st = (case st of None \<Rightarrow> get_default_session now sid | Some s \<Rightarrow> s)"

definition get_session :: "timestamp \<Rightarrow> string \<Rightarrow> store \<Rightarrow> session \<times> store" where
  "get_session now sid st =
     (case st of None \<Rightarrow> (get_default_session now sid, Some (get_default_session now sid))
               | Some s \<Rightarrow> (s, Some s))"

definition update_session :: "timestamp \<Rightarrow> string \<Rightarrow> string \<Rightarrow> reply \<Rightarrow> store \<Rightarrow> store" where
  "update_session now sid user_message agent_response st =
     (let s = load now sid st;
          h = chat_history s @ [(''user'', Text user_message), (''assistant'', agent_response)]
      in Some (s\<lparr>chat_history := drop (length h - 100) h, last_active := now\<rparr>))"

definition get_stage :: "timestamp \<Rightarrow> string \<Rightarrow> store \<Rightarrow> string \<times> store" where
  "get_stage now sid st = (let (s, st') = get_session now sid st in (stage s, st'))"

definition get_chat_history :: "timestamp \<Rightarrow> string \<Rightarrow> store \<Rightarrow> (string \<times> reply) list \<times> store" where
  "get_chat_history now sid st = (let (s, st') = get_session now sid st in (chat_history s, st'))"

definition set_stage :: "timestamp \<Rightarrow> string \<Rightarrow> string \<Rightarrow> store \<Rightarrow> store" where
  "set_stage now sid v st = Some ((load now sid st)\<lparr>stage := v, last_active := now\<rparr>)"

definition get_collected_info :: "timestamp \<Rightarrow> string \<Rightarrow> store \<Rightarrow> collected \<times> store" where
  "get_collected_info now sid st = (let (s, st') = get_session now sid st in (collected_info s, st'))"

definition set_collected_info_payload ::
    "timestamp \<Rightarrow> string \<Rightarrow> travel_payload option \<Rightarrow> store \<Rightarrow> store" where
  \<comment> \<open>\<open>set_collected_info(session_id, "payload", value)\<close>\<close>
  "set_collected_info_payload now sid v st =
     (let s = load now sid st
      in Some (s\<lparr>collected_info := (collected_info s)\<lparr>ci_payload := v\<rparr>, last_active := now\<rparr>))"

definition set_collected_info_family ::
    "timestamp \<Rightarrow> string \<Rightarrow> family_payload option \<Rightarrow> store \<Rightarrow> store" where
  \<comment> \<open>\<open>set_collected_info(session_id, "family_payload", value)\<close>\<close>
  "set_collected_info_family now sid v st =
     (let s = load now sid st
      in Some (s\<lparr>collected_info := (collected_info s)\<lparr>ci_family_payload := v\<rparr>, last_active := now\<rparr>))"

definition set_current_question_key ::
    "timestamp \<Rightarrow> string \<Rightarrow> string option \<Rightarrow> store \<Rightarrow> store" where
  \<comment> \<open>\<open>update_conversation_context(session_id, current_question_key=v)\<close>\<close>
  "set_current_question_key now sid v st =
     (let s = load now sid st
      in Some (s\<lparr>conversation_context := (conversation_context s)\<lparr>current_question_key := v\<rparr>,
                 last_active := now\<rparr>))"

definition set_primary_product :: "timestamp \<Rightarrow> string \<Rightarrow> string \<Rightarrow> store \<Rightarrow> store" where
  \<comment> \<open>\<open>update_conversation_context(session_id, primary_product=v)\<close>\<close>
  "set_primary_product now sid v st =
     (let s = load now sid st
      in Some (s\<lparr>conversation_context := (conversation_context s)\<lparr>primary_product := v\<rparr>,
                 last_active := now\<rparr>))"

definition keep :: "'a option \<Rightarrow> 'a option \<Rightarrow> 'a option" where
  \<comment> \<open>a key of the keyword arguments overwrites the stored one; a key they lack is kept\<close>
  "keep new old = (case new of None \<Rightarrow> old | Some v \<Rightarrow> Some v)"

definition merge_context :: "conv_context \<Rightarrow> conv_context \<Rightarrow> conv_context" where
  "merge_context c old = \<lparr>primary_product = primary_product c, last_intent = keep (last_intent c) (last_intent old),
     error_count = error_count c,
     current_question_key = keep (current_question_key c) (current_question_key old),
     policy_type_choice = keep (policy_type_choice c) (policy_type_choice old),
     group_type_choice = keep (group_type_choice c) (group_type_choice old),
     start_date = keep (start_date c) (start_date old),
     end_date = keep (end_date c) (end_date old),
     num_adults = keep (num_adults c) (num_adults old),
     num_children = keep (num_children c) (num_children old),
     num_adults_group = keep (num_adults_group c) (num_adults_group old),
     num_households = keep (num_households c) (num_households old),
     households_to_collect = keep (households_to_collect c) (households_to_collect old),
     households_collected = keep (households_collected c) (households_collected old),
     households_data = keep (households_data c) (households_data old)\<rparr>"

definition update_conversation_context :: "timestamp \<Rightarrow> string \<Rightarrow> conv_context \<Rightarrow> store \<Rightarrow> store" where
  \<comment> \<open>\<open>update_conversation_context(session_id, **context)\<close>: each key of \<open>context\<close> is
      written over the stored one and no stored key is deleted, so a key popped from
      \<open>context\<close> survives in the store. A key that \<open>context\<close> holds as \<open>None\<close> was loaded
      as \<open>None\<close> from the same store, which makes keeping the stored value the same write.\<close>
  "update_conversation_context now sid c st =
     (let s = load now sid st
      in Some (s\<lparr>conversation_context := merge_context c (conversation_context s),
                 last_active := now\<rparr>))"

definition clear_session_for_global_reset :: "timestamp \<Rightarrow> string \<Rightarrow> store \<Rightarrow> store" where
  "clear_session_for_global_reset now sid st = Some (get_default_session now sid)"

section \<open>Travel agent (\<open>agents/travel_payload_agent.py\<close>)\<close>

definition get_country_code_map :: "(string \<times> string) list" where
  "get_country_code_map =
    [(''albania'', ''ALB''), (''antarctica'', ''ATA''), (''argentina'', ''ARG''),
     (''australia'', ''AUS''), (''austria'', ''AUS''), (''bahrain'', ''BAH''),
     (''bangladesh'', ''BAN''), (''belgium'', ''BEL''), (''bhutan'', ''BTU''),
     (''bolivia'', ''BOL''), (''bosnia and herzegovina'', ''BIH''), (''brazil'', ''BRA''),
     (''brunei'', ''BRU''), (''bulgaria'', ''BUL''), (''cambodia'', ''CAM''),
     (''canada'', ''CAN''), (''cayman islands'', ''CYM''), (''chile'', ''CHL''),
     (''china (excluding inner mongolia)'', ''CHI''), (''colombia'', ''COL''),
     (''costa rica'', ''COS''), (''croatia'', ''HRV''), (''cruise to nowhere'', ''CRU''),
     (''cyprus'', ''CYP''), (''czech republic'', ''CZE''), (''denmark'', ''DEN''),
     (''egypt'', ''EGY''), (''estonia'', ''EST''), (''fiji'', ''FJI''),
     (''finland'', ''FIN''), (''france'', ''FRA''), (''french polynesia'', ''PYF''),
     (''germany'', ''GER''), (''greece'', ''GRE''), (''hong kong'', ''HKG''),
     (''hungary'', ''HUN''), (''iceland'', ''ICE''), (''india'', ''INN''),
     (''indonesia'', ''IND''), (''ireland'', ''IRE''), (''israel'', ''ISR''),
     (''italy'', ''ITA''), (''japan'', ''JPN''), (''jordan'', ''JOR''),
     (''kazakhstan'', ''KAZ''), (''kenya'', ''KEN''), (''korea'', ''KOR''),
     (''kuwait'', ''KUW''), (''kyrgyzstan'', ''KGZ''), (''laos'', ''LAO'')]"

definition empty_travellers :: travellers where
  "empty_travellers = \<lparr>total = None, child = [], adult = [], group = 1\<rparr>"

definition no_addons :: addons where
  "no_addons = \<lparr>preExAddOn = None, lossFFMAddOn = None, flightDelayAddOn = None\<rparr>"

definition get_single_trip_template :: travel_payload where
  "get_single_trip_template =
     \<lparr>ProductCode = ''TVP'', media_wcc = ''HLS'',
      travel = \<lparr>policy_type = ''single'', country_code = Some [], number_of_days = None,
                zone = None, with_children = ''no'', with_spouse = ''no'',
                with_group_of_adults = ''no'', with_group_of_households = ''no'',
                plan = ''gold'', selectedAddOns = no_addons,
                number_of_travellers = empty_travellers, households_info = None\<rparr>,
      promotion = \<lparr>coupon_code = Some ''''\<rparr>,
      leads = \<lparr>email = None, contact_mobile = None\<rparr>\<rparr>"

definition get_annual_trip_template :: travel_payload where
  "get_annual_trip_template =
     \<lparr>ProductCode = ''TPX'', media_wcc = ''HLS'',
      travel = \<lparr>policy_type = ''annual'', country_code = None, number_of_days = Some 1,
                zone = None, with_children = ''no'', with_spouse = ''no'',
                with_group_of_adults = ''no'', with_group_of_households = ''no'',
                plan = ''gold'', selectedAddOns = no_addons,
                number_of_travellers = empty_travellers, households_info = None\<rparr>,
      promotion = \<lparr>coupon_code = Some ''''\<rparr>,
      leads = \<lparr>email = None, contact_mobile = None\<rparr>\<rparr>"

definition QUESTION_MAP :: "(string \<times> string) list" where
  "QUESTION_MAP =
    [(''policy_type'', ''Are you looking for a **Single Trip** or an **Annual Multi-Trip** policy?''),
     (''group_type_single'', ''Who will be traveling? (Yourself, Family, Group of Adults, or Group of Family)''),
     (''group_type_annual'', ''Who will this annual plan cover? (Yourself or Family)''),
     (''zone'', ''Which region do you need coverage for? (**Asia** or **Worldwide**)''),
     (''num_adults'', ''How many adults?''),
     (''num_children'', ''How many children?''),
     (''num_adults_group'', ''How many adults are in the group?''),
     (''num_households'', ''How many families (households) are traveling together?''),
     (''household_info'', ''For family #{num}, how many adults and children?''),
     (''destination'', ''Where are you traveling to? You can enter one or more countries separated by commas (max 10).''),
     (''start_date'', ''What is your travel start date (YYYY-MM-DD)?''),
     (''end_date'', ''And what is your travel end date (YYYY-MM-DD)?''),
     (''addon_pre_ex'', ''Do you need coverage for pre-existing medical conditions? (yes/no)''),
     (''addon_ffm'', ''Add coverage for Loss of Frequent Flyer Miles? (yes/no)''),
     (''addon_flight_delay'', ''Add the Flight Delay benefit? (yes/no)''),
     (''coupon_code'', ''Do you have a coupon code? (If not, just say 'no')''),
     (''email'', ''What is your email address?''),
     (''contact_mobile'', ''Finally, what is your 8-digit contact mobile number?'')]"

definition too_many_countries_msg :: string where
  "too_many_countries_msg =
     ''You can select a maximum of 10 countries. Please provide your destination(s) again.''"

definition unknown_countries_msg :: "string list \<Rightarrow> string" where
  "unknown_countries_msg unknown_countries =
     ''I don't have information for: '' @ join '', '' unknown_countries @
     ''. Please choose from the available destinations.''"

definition annual_family_limit_msg :: string where
  "annual_family_limit_msg =
     ''For an Annual Family plan, the maximum is 2 adults and 5 children. Let's start over with the number of travelers.''"

definition falsy :: "string option \<Rightarrow> bool" where
  \<comment> \<open>\<open>not x\<close> for a string or \<open>None\<close>\<close>
  "falsy x = (x = None \<or> x = Some [])"

fun lookup_countries :: "string list \<Rightarrow> string list \<Rightarrow> string list \<Rightarrow> string list \<times> string list" where
  \<comment> \<open>the loop over \<open>entered_countries\<close>, with \<open>country_codes\<close> and \<open>unknown_countries\<close>\<close>
  "lookup_countries [] country_codes unknown_countries = (country_codes, unknown_countries)"
| "lookup_countries (country_name # rest) country_codes unknown_countries =
     (case map_of get_country_code_map country_name of
        Some code \<Rightarrow>
          if code \<noteq> [] then lookup_countries rest (country_codes @ [code]) unknown_countries
          else lookup_countries rest country_codes (unknown_countries @ [country_name])
      | None \<Rightarrow> lookup_countries rest country_codes (unknown_countries @ [country_name]))"

definition set_addon :: "string \<Rightarrow> bool \<Rightarrow> addons \<Rightarrow> addons" where
  "set_addon last_q is_selected a =
     (if last_q = ''addon_pre_ex'' then a\<lparr>preExAddOn := Some is_selected\<rparr>
      else if last_q = ''addon_ffm'' then a\<lparr>lossFFMAddOn := Some is_selected\<rparr>
      else if last_q = ''addon_flight_delay'' then a\<lparr>flightDelayAddOn := Some is_selected\<rparr>
      else a)"

definition with_payload ::
    "travel_payload option \<Rightarrow> (travel_payload \<Rightarrow> travel_payload) \<Rightarrow> error + travel_payload option" where
  \<comment> \<open>an item assignment inside \<open>payload\<close>: a TypeError when \<open>payload\<close> is \<open>None\<close>\<close>
  "with_payload p f = (case p of None \<Rightarrow> Inl TypeError | Some q \<Rightarrow> Inr (Some (f q)))"

definition household_answer :: "string \<Rightarrow> error + household" where
  \<comment> \<open>\<open>parts = [p.strip() for p in answer.replace('and', ',').split(',')]\<close>,
      \<open>int(parts[0])\<close>, \<open>int(parts[1])\<close>\<close>
  "household_answer answer =
     (case map strip (split_on (CHR '','') (replace ''and'' '','' answer)) of
        [] \<Rightarrow> Inl IndexError
      | p0 # ps \<Rightarrow>
          (case py_int p0 of
             Inl e \<Rightarrow> Inl e
           | Inr a \<Rightarrow>
               (case ps of
                  [] \<Rightarrow> Inl IndexError
                | p1 # _ \<Rightarrow>
                    (case py_int p1 of
                       Inl e \<Rightarrow> Inl e
                     | Inr c \<Rightarrow> Inr \<lparr>adults = a, children = c\<rparr>))))"

text \<open>
  \<open>answer_step\<close> is the chain of branches of \<open>process_user_answer\<close>. Its result is the
  exception raised, or the triple the function returns together with a flag that tells
  whether it returned from inside the branch (the two rejections of the destination
  field), which skips the write of the context to the store.
\<close>

definition answer_step ::
    "string \<Rightarrow> string \<Rightarrow> travel_payload option \<Rightarrow> conv_context \<Rightarrow>
     error + (bool \<times> travel_payload option \<times> conv_context \<times> string option)" where
  "answer_step last_q answer payload context =
    (if last_q = ''policy_type'' then
       (if contains ''annual'' (lower answer)
        then Inr (False, Some get_annual_trip_template,
                  context\<lparr>policy_type_choice := Some ''annual''\<rparr>, None)
        else Inr (False, Some get_single_trip_template,
                  context\<lparr>policy_type_choice := Some ''single''\<rparr>, None))
     else if last_q = ''group_type_single'' then
       (let ans_lower = lower answer in
        if contains ''group of families'' ans_lower \<or> contains ''households'' ans_lower
          then Inr (False, payload, context\<lparr>group_type_choice := Some ''group_family''\<rparr>, None)
        else if contains ''group of adults'' ans_lower
          then Inr (False, payload, context\<lparr>group_type_choice := Some ''group_adults''\<rparr>, None)
        else if contains ''family'' ans_lower
          then Inr (False, payload, context\<lparr>group_type_choice := Some ''family''\<rparr>, None)
        else Inr (False, payload, context\<lparr>group_type_choice := Some ''myself''\<rparr>, None))
     else if last_q = ''group_type_annual'' then
       (if contains ''family'' (lower answer)
        then Inr (False, payload, context\<lparr>group_type_choice := Some ''family''\<rparr>, None)
        else Inr (False, payload, context\<lparr>group_type_choice := Some ''myself''\<rparr>, None))
     else if last_q = ''zone'' then
       (case with_payload payload
               (\<lambda>p. p\<lparr>travel := (travel p)\<lparr>zone :=
                        Some (if contains ''asia'' (lower answer) then ''A2'' else ''A3'')\<rparr>\<rparr>) of
          Inl e \<Rightarrow> Inl e
        | Inr p' \<Rightarrow> Inr (False, p', context, None))
     else if last_q = ''destination'' then
       (let entered_countries = map (\<lambda>c. lower (strip c)) (split_on (CHR '','') answer) in
        if length entered_countries > 10 then
          Inr (True, payload, context, Some too_many_countries_msg)
        else
          (let (country_codes, unknown_countries) = lookup_countries entered_countries [] [] in
           if unknown_countries \<noteq> [] then
             Inr (True, payload, context, Some (unknown_countries_msg unknown_countries))
           else
             (case with_payload payload
                     (\<lambda>p. p\<lparr>travel := (travel p)\<lparr>country_code := Some country_codes\<rparr>\<rparr>) of
                Inl e \<Rightarrow> Inl e
              | Inr p' \<Rightarrow> Inr (False, p', context, None))))
     else if last_q = ''start_date'' then
       Inr (False, payload, context\<lparr>start_date := Some (replace ''/'' ''-'' answer)\<rparr>, None)
     else if last_q = ''end_date'' then
       Inr (False, payload, context\<lparr>end_date := Some (replace ''/'' ''-'' answer)\<rparr>, None)
     else if last_q = ''num_adults'' then
       (case py_int answer of
          Inl e \<Rightarrow> Inl e
        | Inr n \<Rightarrow> Inr (False, payload, context\<lparr>num_adults := Some n\<rparr>, None))
     else if last_q = ''num_children'' then
       (case py_int answer of
          Inl e \<Rightarrow> Inl e
        | Inr n \<Rightarrow>
            (let context1 = context\<lparr>num_children := Some n\<rparr>;
                 adults = (case num_adults context1 of None \<Rightarrow> 0 | Some a \<Rightarrow> a);
                 children = (case num_children context1 of None \<Rightarrow> 0 | Some c \<Rightarrow> c)
             in if policy_type_choice context1 = Some ''annual'' \<and>
                   group_type_choice context1 = Some ''family'' \<and> (adults > 2 \<or> children > 5)
                then Inr (False, payload,
                          context1\<lparr>num_adults := None, num_children := None,
                                   current_question_key := Some ''num_adults''\<rparr>,
                          Some annual_family_limit_msg)
                else Inr (False, payload, context1, None)))
     else if last_q = ''num_adults_group'' then
       (case py_int answer of
          Inl e \<Rightarrow> Inl e
        | Inr n \<Rightarrow> Inr (False, payload, context\<lparr>num_adults_group := Some n\<rparr>, None))
     else if last_q = ''num_households'' then
       (case py_int answer of
          Inl e \<Rightarrow> Inl e
        | Inr n \<Rightarrow> Inr (False, payload,
                        context\<lparr>num_households := Some n, households_to_collect := Some n,
                                households_collected := Some 0, households_data := Some []\<rparr>,
                        None))
     else if last_q = ''household_info'' then
       (case household_answer answer of
          Inl e \<Rightarrow> Inl e
        | Inr h \<Rightarrow>
            (case households_data context of
               None \<Rightarrow> Inl KeyError
             | Some hs \<Rightarrow>
                 Inr (False, payload,
                      context\<lparr>households_data := Some (hs @ [h]),
                              households_collected :=
                                Some ((case households_collected context of None \<Rightarrow> 0 | Some k \<Rightarrow> k) + 1)\<rparr>,
                      None)))
     else if startswith last_q ''addon_'' then
       (if last_q = ''addon_pre_ex'' \<or> last_q = ''addon_ffm'' \<or> last_q = ''addon_flight_delay''
        then
          (case with_payload payload
                  (\<lambda>p. p\<lparr>travel := (travel p)\<lparr>selectedAddOns :=
                           set_addon last_q (contains ''yes'' (lower answer))
                             (selectedAddOns (travel p))\<rparr>\<rparr>) of
             Inl e \<Rightarrow> Inl e
           | Inr p' \<Rightarrow> Inr (False, p', context, None))
        else Inr (False, payload, context, None))
     else if last_q = ''coupon_code'' then
       (case with_payload payload
               (\<lambda>p. p\<lparr>promotion := (promotion p)\<lparr>coupon_code :=
                        Some (if contains ''no'' (lower answer) then '''' else answer)\<rparr>\<rparr>) of
          Inl e \<Rightarrow> Inl e
        | Inr p' \<Rightarrow> Inr (False, p', context, None))
     else if last_q = ''email'' then
       (case with_payload payload (\<lambda>p. p\<lparr>leads := (leads p)\<lparr>email := Some answer\<rparr>\<rparr>) of
          Inl e \<Rightarrow> Inl e
        | Inr p' \<Rightarrow> Inr (False, p', context, None))
     else if last_q = ''contact_mobile'' then
       (case with_payload payload (\<lambda>p. p\<lparr>leads := (leads p)\<lparr>contact_mobile := Some answer\<rparr>\<rparr>) of
          Inl e \<Rightarrow> Inl e
        | Inr p' \<Rightarrow> Inr (False, p', context, None))
     else Inr (False, payload, context, None))"

definition process_user_answer ::
    "timestamp \<Rightarrow> string \<Rightarrow> string \<Rightarrow> travel_payload option \<Rightarrow> conv_context \<Rightarrow> store \<Rightarrow>
     error + ((travel_payload option \<times> conv_context \<times> string option) \<times> store)" where
  "process_user_answer now sid user_message payload context st =
     (case current_question_key context of
        None \<Rightarrow> Inl AttributeError
      | Some last_q \<Rightarrow>
          (case answer_step last_q (strip user_message) payload context of
             Inl e \<Rightarrow> Inl e
           | Inr (returned, payload', context', validation_error) \<Rightarrow>
               Inr ((payload', context', validation_error),
                    (if returned then st else update_conversation_context now sid context' st))))"

definition falsy_list :: "'a list option \<Rightarrow> bool" where
  \<comment> \<open>\<open>not x\<close> for a list or \<open>None\<close>\<close>
  "falsy_list x = (x = None \<or> x = Some [])"

definition or0 :: "int option \<Rightarrow> int" where
  \<comment> \<open>\<open>context.get(key, 0)\<close>\<close>
  "or0 x = (case x of None \<Rightarrow> 0 | Some v \<Rightarrow> v)"

definition tail_questions :: "travel_payload \<Rightarrow> string" where
  \<comment> \<open>the last three tests of \<open>determine_next_question\<close>, shared by both policy types\<close>
  "tail_questions p =
     (if coupon_code (promotion p) = None then ''coupon_code''
      else if falsy (email (leads p)) then ''email''
      else if falsy (contact_mobile (leads p)) then ''contact_mobile''
      else ''DONE'')"

definition determine_next_question :: "travel_payload option \<Rightarrow> conv_context \<Rightarrow> error + string" where
  \<comment> \<open>reading \<open>payload\<close> when it is \<open>None\<close> raises an AttributeError, at the first test
      that reads it\<close>
  "determine_next_question payload context =
     (let policy_type = policy_type_choice context;
          group_type = group_type_choice context
      in if falsy group_type then
           Inr (if policy_type = Some ''annual'' then ''group_type_annual'' else ''group_type_single'')
         else if policy_type = Some ''annual'' then
           (case payload of
              None \<Rightarrow> Inl AttributeError
            | Some p \<Rightarrow>
                if falsy (zone (travel p)) then Inr ''zone''
                else if group_type = Some ''family'' \<and> num_adults context = None then Inr ''num_adults''
                else if group_type = Some ''family'' \<and> num_children context = None then Inr ''num_children''
                else if preExAddOn (selectedAddOns (travel p)) = None then Inr ''addon_pre_ex''
                else Inr (tail_questions p))
         else
           if group_type = Some ''family'' \<and> num_adults context = None then Inr ''num_adults''
           else if group_type = Some ''family'' \<and> num_children context = None then Inr ''num_children''
           else if group_type = Some ''group_adults'' \<and> num_adults_group context = None
             then Inr ''num_adults_group''
           else if group_type = Some ''group_family'' \<and> num_households context = None
             then Inr ''num_households''
           else if group_type = Some ''group_family'' \<and>
                   or0 (households_collected context) < or0 (households_to_collect context)
             then Inr ''household_info''
           else
             (case payload of
                None \<Rightarrow> Inl AttributeError
              | Some p \<Rightarrow>
                  if falsy_list (country_code (travel p)) then Inr ''destination''
                  else if falsy (start_date context) then Inr ''start_date''
                  else if falsy (end_date context) then Inr ''end_date''
                  else if preExAddOn (selectedAddOns (travel p)) = None then Inr ''addon_pre_ex''
                  else if lossFFMAddOn (selectedAddOns (travel p)) = None then Inr ''addon_ffm''
                  else if flightDelayAddOn (selectedAddOns (travel p)) = None
                    then Inr ''addon_flight_delay''
                  else Inr (tail_questions p)))"

definition yes_no :: "bool \<Rightarrow> string" where
  "yes_no b = (if b then ''yes'' else ''no'')"

definition set_travellers :: "(travellers \<Rightarrow> travellers) \<Rightarrow> travel_payload \<Rightarrow> travel_payload" where
  \<comment> \<open>\<open>payload['travel']['number_of_travellers'].update(...)\<close>\<close>
  "set_travellers f p =
     p\<lparr>travel := (travel p)\<lparr>number_of_travellers := f (number_of_travellers (travel p))\<rparr>\<rparr>"

definition finalize_group :: "travel_payload option \<Rightarrow> conv_context \<Rightarrow> error + travel_payload option" where
  \<comment> \<open>the branches of \<open>finalize_payload\<close> on the group type\<close>
  "finalize_group payload context =
     (let group_type = group_type_choice context
      in if group_type = Some ''myself'' then
           with_payload payload (set_travellers (\<lambda>t. t\<lparr>adult := [1], child := [0], total := Some 1\<rparr>))
         else if group_type = Some ''family'' then
           (let adults = or0 (num_adults context); children = or0 (num_children context)
            in with_payload payload
                 (\<lambda>p. let p1 = set_travellers
                                  (\<lambda>t. t\<lparr>adult := [adults], child := [children],
                                         total := Some (adults + children)\<rparr>) p;
                           p2 = (if children > 0
                                 then p1\<lparr>travel := (travel p1)\<lparr>with_children := ''yes''\<rparr>\<rparr> else p1)
                       in if adults > 1
                          then p2\<lparr>travel := (travel p2)\<lparr>with_spouse := ''yes''\<rparr>\<rparr> else p2))
         else if group_type = Some ''group_adults'' then
           (let adults = or0 (num_adults_group context)
            in with_payload payload
                 (\<lambda>p. let p1 = set_travellers
                                  (\<lambda>t. t\<lparr>adult := replicate (nat adults) 1,
                                         child := replicate (nat adults) 0,
                                         total := Some adults\<rparr>) p
                       in p1\<lparr>travel := (travel p1)\<lparr>with_group_of_adults := ''yes''\<rparr>\<rparr>))
         else if group_type = Some ''group_family'' then
           (let households_data = (case households_data context of None \<Rightarrow> [] | Some hs \<Rightarrow> hs);
                adults_list = map adults households_data;
                children_list = map children households_data;
                total = sum_list adults_list + sum_list children_list
            in with_payload payload
                 (\<lambda>p. let p1 = set_travellers
                                  (\<lambda>t. t\<lparr>adult := adults_list, child := children_list,
                                         total := Some total,
                                         group := int (length households_data)\<rparr>) p
                       in p1\<lparr>travel := (travel p1)
                            \<lparr>with_group_of_households := ''yes'',
                             households_info := Some (map (\<lambda>h.
                               \<lparr>hh_with_children = yes_no (children h > 0),
                                hh_with_spouse = yes_no (adults h > 1)\<rparr>) households_data)\<rparr>\<rparr>))
         else Inr payload)"

definition finalize_payload :: "travel_payload option \<Rightarrow> conv_context \<Rightarrow> error + travel_payload option" where
  "finalize_payload payload context =
     (case finalize_group payload context of
        Inl e \<Rightarrow> Inl e
      | Inr payload1 \<Rightarrow>
          if policy_type_choice context = Some ''single'' then
            (case start_date context of
               None \<Rightarrow> Inl KeyError
             | Some s \<Rightarrow>
                 (case strptime s of
                    Inl e \<Rightarrow> Inl e
                  | Inr start \<Rightarrow>
                      (case end_date context of
                         None \<Rightarrow> Inl KeyError
                       | Some e \<Rightarrow>
                           (case strptime e of
                              Inl err \<Rightarrow> Inl err
                            | Inr end \<Rightarrow>
                                with_payload payload1
                                  (\<lambda>p. p\<lparr>travel := (travel p)\<lparr>number_of_days :=
                                      Some (max (toordinal end - toordinal start + 1) 1)\<rparr>\<rparr>)))))
          else Inr payload1)"

definition done_msg_travel :: string where
  "done_msg_travel = ''Thank you, I have all the information. Generating your quote now...''"

definition question_text_of :: "string \<Rightarrow> conv_context \<Rightarrow> error + string" where
  \<comment> \<open>\<open>QUESTION_MAP[next_question_key]\<close> and the replacement of \<open>#num\<close>\<close>
  "question_text_of next_question_key context =
     (case map_of QUESTION_MAP next_question_key of
        None \<Rightarrow> Inl KeyError
      | Some question_text \<Rightarrow>
          if contains ''#num'' question_text
          then Inr (replace ''#num'' (str_int (or0 (households_collected context) + 1)) question_text)
          else Inr question_text)"

definition after_answer ::
    "timestamp \<Rightarrow> string \<Rightarrow> travel_payload option \<Rightarrow> conv_context \<Rightarrow> store \<Rightarrow> (error + reply) \<times> store" where
  \<comment> \<open>\<open>run_travel_payload_agent\<close> from the call of \<open>determine_next_question\<close> on\<close>
  "after_answer now sid payload context st =
     (case determine_next_question payload context of
        Inl e \<Rightarrow> (Inl e, st)
      | Inr next_question_key \<Rightarrow>
          if next_question_key = ''DONE'' then
            (case finalize_payload payload context of
               Inl e \<Rightarrow> (Inl e, st)
             | Inr payload' \<Rightarrow>
                 (Inr (Text done_msg_travel),
                  set_current_question_key now sid None
                    (set_stage now sid ''quote_generation''
                       (set_collected_info_payload now sid payload' st))))
          else
            (case question_text_of next_question_key context of
               Inl e \<Rightarrow> (Inl e, st)
             | Inr question_text \<Rightarrow>
                 (Inr (Text question_text),
                  set_collected_info_payload now sid payload
                    (set_current_question_key now sid (Some next_question_key) st))))"

definition run_travel_payload_agent ::
    "timestamp \<Rightarrow> string \<Rightarrow> string \<Rightarrow> store \<Rightarrow> (error + reply) \<times> store" where
  \<comment> \<open>the reply \<open>{"output": ...}\<close> or the exception raised, and the store as the call leaves it\<close>
  "run_travel_payload_agent now sid user_message st =
     (let (session, st1) = get_session now sid st;
          context = conversation_context session;
          payload = ci_payload (collected_info session)
      in if falsy (current_question_key context) then
           (case map_of QUESTION_MAP ''policy_type'' of
              None \<Rightarrow> (Inl KeyError, set_current_question_key now sid (Some ''policy_type'') st1)
            | Some q \<Rightarrow> (Inr (Text q), set_current_question_key now sid (Some ''policy_type'') st1))
         else
           (case process_user_answer now sid user_message payload context st1 of
              Inl e \<Rightarrow> (Inl e, st1)
            | Inr ((payload1, context1, validation_error), st2) \<Rightarrow>
                (case validation_error of
                   None \<Rightarrow> after_answer now sid payload1 context1 st2
                 | Some v \<Rightarrow>
                     if v \<noteq> [] then (Inr (Text v), st2)
                     else after_answer now sid payload1 context1 st2)))"

section \<open>Family agent (\<open>agents/family_payload_agent.py\<close>)\<close>

definition get_family_payload_template :: family_payload where
  "get_family_payload_template =
     \<lparr>product_code = ''FAC'', policyInceptionDate = None, mediaWCC = ''HLS'',
      IsCEPCustomer = False, IsCEPFirstTimeCustomer = False, hasRider = True,
      premiumType = None, promoCode = None, CEPReferralCode = None,
      withChildren = False, withSpouse = False,
      internal = Some \<lparr>internal_email = None, internal_contact_mobile = None,
                       insured_party = None\<rparr>\<rparr>"

definition QUESTION_MAP_family :: "(string \<times> string) list" where
  "QUESTION_MAP_family =
    [(''premiumType'', ''Are you looking for a **Monthly** or an **Annual** family insurance plan?''),
     (''insured_party'', ''Who is this plan for? (**Myself**, **Myself with Child(ren)**, or **Family**)''),
     (''policyInceptionDate'', ''What date would you like the plan to start? (YYYY-MM-DD)''),
     (''email'', ''What is your email address?''),
     (''contact_mobile'', ''And your 8-digit Singapore mobile number?''),
     (''promoCode'', ''Finally, do you have a promocode? (If not, just say 'no')'')]"

definition bad_date_msg :: string where
  "bad_date_msg = ''That doesn't look like a valid date format. Please use YYYY-MM-DD.''"

definition with_family ::
    "family_payload option \<Rightarrow> (family_payload \<Rightarrow> family_payload) \<Rightarrow> error + family_payload option" where
  "with_family p f = (case p of None \<Rightarrow> Inl TypeError | Some q \<Rightarrow> Inr (Some (f q)))"

definition with_internal ::
    "family_payload option \<Rightarrow> (internal_rec \<Rightarrow> internal_rec) \<Rightarrow> error + family_payload" where
  \<comment> \<open>an assignment \<open>payload['_internal'][key] = value\<close>: a TypeError when \<open>payload\<close> is
      \<open>None\<close>, a KeyError when it has no \<open>_internal\<close>\<close>
  "with_internal p f =
     (case p of
        None \<Rightarrow> Inl TypeError
      | Some q \<Rightarrow> (case internal q of
                    None \<Rightarrow> Inl KeyError
                  | Some i \<Rightarrow> Inr (q\<lparr>internal := Some (f i)\<rparr>)))"

definition process_user_answer_family ::
    "string \<Rightarrow> family_payload option \<Rightarrow> conv_context \<Rightarrow>
     error + (family_payload option \<times> conv_context \<times> string option)" where
  "process_user_answer_family user_message payload context =
     (let last_q = current_question_key context;
          answer = lower (strip user_message)
      in if last_q = Some ''premiumType'' then
           (case with_family payload
                   (\<lambda>p. p\<lparr>premiumType := Some (if contains ''annual'' answer
                                                 then ''annual'' else ''monthly'')\<rparr>) of
              Inl e \<Rightarrow> Inl e
            | Inr p' \<Rightarrow> Inr (p', context, None))
         else if last_q = Some ''insured_party'' then
           (case with_internal payload (\<lambda>i. i\<lparr>insured_party := Some answer\<rparr>) of
              Inl e \<Rightarrow> Inl e
            | Inr p1 \<Rightarrow>
                if contains ''myself with child'' answer
                  then Inr (Some (p1\<lparr>withChildren := True, withSpouse := False\<rparr>), context, None)
                else if contains ''family'' answer
                  then Inr (Some (p1\<lparr>withChildren := True, withSpouse := True\<rparr>), context, None)
                else Inr (Some (p1\<lparr>withChildren := False, withSpouse := False\<rparr>), context, None))
         else if last_q = Some ''policyInceptionDate'' then
           (let date_str = replace ''/'' ''-'' answer
            in case strptime date_str of
                 Inl e \<Rightarrow> Inr (payload, context, Some bad_date_msg)
               | Inr d \<Rightarrow>
                   (case with_family payload (\<lambda>p. p\<lparr>policyInceptionDate := Some date_str\<rparr>) of
                      Inl e \<Rightarrow> Inl e
                    | Inr p' \<Rightarrow> Inr (p', context, None)))
         else if last_q = Some ''email'' then
           (case with_internal payload (\<lambda>i. i\<lparr>internal_email := Some (strip user_message)\<rparr>) of
              Inl e \<Rightarrow> Inl e
            | Inr p' \<Rightarrow> Inr (Some p', context, None))
         else if last_q = Some ''contact_mobile'' then
           (case with_internal payload
                   (\<lambda>i. i\<lparr>internal_contact_mobile := Some (strip user_message)\<rparr>) of
              Inl e \<Rightarrow> Inl e
            | Inr p' \<Rightarrow> Inr (Some p', context, None))
         else if last_q = Some ''promoCode'' then
           (case with_family payload
                   (\<lambda>p. p\<lparr>promoCode := Some (if answer = ''no'' then []
                                               else strip user_message)\<rparr>) of
              Inl e \<Rightarrow> Inl e
            | Inr p' \<Rightarrow> Inr (p', context, None))
         else Inr (payload, context, None))"

definition internal_get :: "family_payload \<Rightarrow> (internal_rec \<Rightarrow> string option) \<Rightarrow> string option" where
  \<comment> \<open>\<open>payload.get('_internal', {}).get(key)\<close>\<close>
  "internal_get p f = (case internal p of None \<Rightarrow> None | Some i \<Rightarrow> f i)"

definition determine_next_question_family :: "family_payload option \<Rightarrow> error + string" where
  "determine_next_question_family payload =
     (case payload of
        None \<Rightarrow> Inl AttributeError
      | Some p \<Rightarrow>
          if premiumType p = None then Inr ''premiumType''
          else if internal_get p insured_party = None then Inr ''insured_party''
          else if policyInceptionDate p = None then Inr ''policyInceptionDate''
          else if internal_get p internal_email = None then Inr ''email''
          else if internal_get p internal_contact_mobile = None then Inr ''contact_mobile''
          else if promoCode p = None then Inr ''promoCode''
          else Inr ''DONE'')"

definition finalize_payload_family :: "family_payload option \<Rightarrow> error + family_payload option" where
  \<comment> \<open>\<open>if '_internal' in payload: del payload['_internal']\<close>\<close>
  "finalize_payload_family payload =
     (case payload of
        None \<Rightarrow> Inl TypeError
      | Some p \<Rightarrow> Inr (Some (p\<lparr>internal := None\<rparr>)))"

definition done_msg_family :: string where
  "done_msg_family = ''Thank you. Let me get the price for you...''"

definition run_family_payload_agent ::
    "timestamp \<Rightarrow> string \<Rightarrow> string \<Rightarrow> store \<Rightarrow> (error + reply) \<times> store" where
  "run_family_payload_agent now sid user_message st =
     (let (session, st1) = get_session now sid st;
          context0 = conversation_context session;
          payload0 = ci_family_payload (collected_info session);
          (payload, context) =
             (if falsy (current_question_key context0)
              then (Some get_family_payload_template,
                    context0\<lparr>current_question_key := Some ''premiumType''\<rparr>)
              else (payload0, context0))
      in case process_user_answer_family user_message payload context of
           Inl e \<Rightarrow> (Inl e, st1)
         | Inr (payload1, context1, validation_error) \<Rightarrow>
             (case validation_error of
                Some (c # cs) \<Rightarrow> (Inr (Text (c # cs)), st1)
              | _ \<Rightarrow>
                (case determine_next_question_family payload1 of
                   Inl e \<Rightarrow> (Inl e, st1)
                 | Inr next_question_key \<Rightarrow>
                     if next_question_key = ''DONE'' then
                       (case finalize_payload_family payload1 of
                          Inl e \<Rightarrow> (Inl e, st1)
                        | Inr payload2 \<Rightarrow>
                            (Inr (Text done_msg_family),
                             set_current_question_key now sid None
                               (set_stage now sid ''quote_generation''
                                  (set_collected_info_family now sid payload2 st1))))
                     else
                       (case map_of QUESTION_MAP_family next_question_key of
                          None \<Rightarrow> (Inl KeyError, st1)
                        | Some question_text \<Rightarrow>
                            (Inr (Text question_text),
                             set_collected_info_family now sid payload1
                               (set_current_question_key now sid (Some next_question_key) st1))))))"

section \<open>Quote generation and the orchestrator\<close>

datatype Product = TRAVEL | FAMILY | POLICY_CLAIM_STATUS | UNKNOWN

record Intent =
  product :: Product
  intent :: string

text \<open>
  The classifier (\<open>get_primary_intent\<close>, a language model behind an exception handler)
  and the quotation service (\<open>_call_api\<close>, which also catches its own failures) are
  parameters: total functions of what the source passes to them. The response of the
  service is its JSON text.
\<close>

type_synonym classifier = "string \<Rightarrow> (string \<times> reply) list \<Rightarrow> Intent"
type_synonym quote_api = "string \<Rightarrow> travel_payload + family_payload \<Rightarrow> string"

definition greeting_msg :: string where
  "greeting_msg = ''Hello! I can help you with Travel or Family insurance. Which one are you interested in?''"

definition pick_product_msg :: string where
  "pick_product_msg = ''I can help with Travel or Family insurance. Which product are you interested in?''"

definition fallback_msg :: string where
  "fallback_msg = ''I'm not sure how to help with that. Please start by telling me if you need Travel or Family insurance.''"

definition apology_msg :: string where
  "apology_msg = ''I'm sorry, a critical error occurred. Please start over by saying 'hi'.''"

definition lost_product_msg :: string where
  "lost_product_msg = ''I'm sorry, I've lost track of which product we were discussing.''"

definition lost_details_msg :: string where
  "lost_details_msg = ''I seem to have lost your details. Let's start over.''"

definition run_quote_generation :: "quote_api \<Rightarrow> timestamp \<Rightarrow> string \<Rightarrow> store \<Rightarrow> reply \<times> store" where
  "run_quote_generation call_api now sid st =
     (let (session, st1) = get_session now sid st;
          product = primary_product (conversation_context session)
      in if product = [] then (Text lost_product_msg, st1)
         else
           (let (collected_info, st2) = get_collected_info now sid st1;
                final_payload =
                  (if product = ''FAMILY''
                   then map_option Inr (ci_family_payload collected_info)
                   else map_option Inl (ci_payload collected_info))
            in case final_payload of
                 None \<Rightarrow> (Text lost_details_msg, st2)
               | Some fp \<Rightarrow> (Quote (call_api product fp), set_stage now sid ''initial'' st2)))"

definition dispatch ::
    "classifier \<Rightarrow> quote_api \<Rightarrow> timestamp \<Rightarrow> string \<Rightarrow> string \<Rightarrow> store \<Rightarrow> (error + reply) \<times> store" where
  \<comment> \<open>the body of the \<open>try\<close> of \<open>orchestrate_chat\<close> up to the final \<open>update_session\<close>\<close>
  "dispatch get_primary_intent call_api now sid user_message st =
     (let (stage, st1) = get_stage now sid st;
          (chat_history, st2) = get_chat_history now sid st1
      in if stage = [] \<or> stage = ''initial'' then
           (let intent_result = get_primary_intent user_message chat_history
            in if intent intent_result = ''greeting'' then (Inr (Text greeting_msg), st2)
               else if product intent_result = TRAVEL then
                 run_travel_payload_agent now sid user_message
                   (set_primary_product now sid ''TRAVEL'' (set_stage now sid ''travel_collection'' st2))
               else if product intent_result = FAMILY then
                 run_family_payload_agent now sid user_message
                   (set_primary_product now sid ''FAMILY'' (set_stage now sid ''family_collection'' st2))
               else (Inr (Text pick_product_msg), st2))
         else if stage = ''travel_collection'' then run_travel_payload_agent now sid user_message st2
         else if stage = ''family_collection'' then run_family_payload_agent now sid user_message st2
         else if stage = ''quote_generation'' then
           (let (r, st3) = run_quote_generation call_api now sid st2 in (Inr r, st3))
         else (Inr (Text fallback_msg), st2))"

definition orchestrate_chat ::
    "classifier \<Rightarrow> quote_api \<Rightarrow> timestamp \<Rightarrow> string \<Rightarrow> string \<Rightarrow> store \<Rightarrow> reply \<times> store" where
  "orchestrate_chat get_primary_intent call_api now sid user_message st =
     (if lower (strip user_message) = ''hi'' \<or> lower (strip user_message) = ''hello'' then
        (Text greeting_msg,
         update_session now sid user_message (Text greeting_msg)
           (clear_session_for_global_reset now sid st))
      else
        (case dispatch get_primary_intent call_api now sid user_message st of
           (Inl e, st') \<Rightarrow> (Text apology_msg, st')
         | (Inr agent_response, st') \<Rightarrow>
             (agent_response, update_session now sid user_message agent_response st')))"

section \<open>Notions the properties are stated with\<close>

definition destination_tokens :: "string \<Rightarrow> string list" where
  \<comment> \<open>the comma-split answer to the destination question, each token trimmed and lowercased\<close>
  "destination_tokens user_message =
     map (\<lambda>c. lower (strip c)) (split_on (CHR '','') (strip user_message))"

definition unrecognized :: "string list \<Rightarrow> string list" where
  \<comment> \<open>the tokens that the country table does not have, in the order of the answer\<close>
  "unrecognized tokens = filter (\<lambda>n. map_of get_country_code_map n = None) tokens"

definition unset_leaves_family :: "family_payload \<Rightarrow> string list" where
  \<comment> \<open>the leaves of a family payload that hold \<open>None\<close>, by name\<close>
  "unset_leaves_family p =
     (if policyInceptionDate p = None then [''policyInceptionDate''] else []) @
     (if premiumType p = None then [''premiumType''] else []) @
     (if promoCode p = None then [''promoCode''] else []) @
     (if CEPReferralCode p = None then [''CEPReferralCode''] else []) @
     (case internal p of
        None \<Rightarrow> []
      | Some i \<Rightarrow>
          (if internal_email i = None then [''_internal.email''] else []) @
          (if internal_contact_mobile i = None then [''_internal.contact_mobile''] else []) @
          (if insured_party i = None then [''_internal.insured_party''] else []))"

definition unset_leaves_travel :: "travel_payload \<Rightarrow> string list" where
  \<comment> \<open>the leaves of a travel payload that hold \<open>None\<close>, by name\<close>
  "unset_leaves_travel p =
     (if country_code (travel p) = None then [''country_code''] else []) @
     (if number_of_days (travel p) = None then [''number_of_days''] else []) @
     (if zone (travel p) = None then [''zone''] else []) @
     (if total (number_of_travellers (travel p)) = None then [''total''] else []) @
     (if coupon_code (promotion p) = None then [''coupon_code''] else []) @
     (if email (leads p) = None then [''email''] else []) @
     (if contact_mobile (leads p) = None then [''contact_mobile''] else [])"

definition group_types :: "string list" where
  \<comment> \<open>the values \<open>process_user_answer\<close> gives to \<open>group_type_choice\<close>\<close>
  "group_types = [''myself'', ''family'', ''group_adults'', ''group_family'']"

definition travel_labels :: "string list" where
  \<comment> \<open>the field labels of the travel agent\<close>
  "travel_labels = map fst QUESTION_MAP"

definition family_labels :: "string list" where
  \<comment> \<open>the field labels of the family agent\<close>
  "family_labels = map fst QUESTION_MAP_family"


text \<open>
  The questions that a collection still has to ask. \<open>questions_left\<close> counts the tests of
  \<open>determine_next_question\<close> that the payload and context do not pass yet, one for each
  household that remains to be described; \<open>branch_left\<close> counts, among them, the two
  questions whose answers decide which fields apply: the group type and, for a group of
  families on a single trip, the number of households.
\<close>

definition questions_left :: "travel_payload \<Rightarrow> conv_context \<Rightarrow> nat" where
  "questions_left p c =
     (let g = group_type_choice c in
      of_bool (falsy g) +
      (if policy_type_choice c = Some ''annual'' then
         of_bool (falsy (zone (travel p))) +
         of_bool (g = Some ''family'' \<and> num_adults c = None) +
         of_bool (g = Some ''family'' \<and> num_children c = None) +
         of_bool (preExAddOn (selectedAddOns (travel p)) = None)
       else
         of_bool (g = Some ''family'' \<and> num_adults c = None) +
         of_bool (g = Some ''family'' \<and> num_children c = None) +
         of_bool (g = Some ''group_adults'' \<and> num_adults_group c = None) +
         of_bool (g = Some ''group_family'' \<and> num_households c = None) +
         (if g = Some ''group_family''
          then nat (or0 (households_to_collect c) - or0 (households_collected c)) else 0) +
         of_bool (falsy_list (country_code (travel p))) +
         of_bool (falsy (start_date c)) +
         of_bool (falsy (end_date c)) +
         of_bool (preExAddOn (selectedAddOns (travel p)) = None) +
         of_bool (lossFFMAddOn (selectedAddOns (travel p)) = None) +
         of_bool (flightDelayAddOn (selectedAddOns (travel p)) = None)) +
      of_bool (coupon_code (promotion p) = None) +
      of_bool (falsy (email (leads p))) +
      of_bool (falsy (contact_mobile (leads p))))"

definition branch_left :: "conv_context \<Rightarrow> nat" where
  "branch_left c =
     of_bool (falsy (group_type_choice c)) +
     of_bool (policy_type_choice c \<noteq> Some ''annual'' \<and> num_households c = None \<and>
              (falsy (group_type_choice c) \<or> group_type_choice c = Some ''group_family''))"

definition questions_left_family :: "family_payload \<Rightarrow> nat" where
  \<comment> \<open>the tests of the family agent's \<open>determine_next_question\<close> that the payload does not pass yet\<close>
  "questions_left_family p =
     of_bool (premiumType p = None) +
     of_bool (internal_get p insured_party = None) +
     of_bool (policyInceptionDate p = None) +
     of_bool (internal_get p internal_email = None) +
     of_bool (internal_get p internal_contact_mobile = None) +
     of_bool (promoCode p = None)"

text \<open>
  A stored session awaits an answer when its \<open>current_question_key\<close> is the label that
  the Resolver returns for its payload and context, which is how the agent leaves the
  session after each question it asks.
\<close>

definition awaiting :: "store \<Rightarrow> bool" where
  "awaiting st =
     (case st of
        None \<Rightarrow> False
      | Some s \<Rightarrow>
          (case (ci_payload (collected_info s), current_question_key (conversation_context s)) of
             (Some p, Some q) \<Rightarrow>
                q \<noteq> ''DONE'' \<and> determine_next_question (Some p) (conversation_context s) = Inr q
           | _ \<Rightarrow> False))"

definition fields_left :: "store \<Rightarrow> nat" where
  "fields_left st =
     (case st of
        None \<Rightarrow> 0
      | Some s \<Rightarrow> (case ci_payload (collected_info s) of
                     None \<Rightarrow> 0
                   | Some p \<Rightarrow> questions_left p (conversation_context s)))"

definition branches_left :: "store \<Rightarrow> nat" where
  "branches_left st =
     (case st of None \<Rightarrow> 0 | Some s \<Rightarrow> branch_left (conversation_context s))"

text \<open>
  A message is accepted when it is not blank and \<open>process_user_answer\<close> returns without an
  exception and without a validation message; it reaches DONE when, in addition, the
  Resolver returns \<open>DONE\<close> for the payload and context that \<open>process_user_answer\<close> returns.
\<close>

definition accepted :: "timestamp \<Rightarrow> string \<Rightarrow> string \<Rightarrow> store \<Rightarrow> bool" where
  "accepted now sid m st =
     (strip m \<noteq> [] \<and>
      (let s = load now sid st
       in case process_user_answer now sid m (ci_payload (collected_info s))
                 (conversation_context s) (Some s) of
            Inr ((payload', context', None), st') \<Rightarrow> True
          | _ \<Rightarrow> False))"

definition reaches_done :: "timestamp \<Rightarrow> string \<Rightarrow> string \<Rightarrow> store \<Rightarrow> bool" where
  "reaches_done now sid m st =
     (let s = load now sid st
      in case process_user_answer now sid m (ci_payload (collected_info s))
                (conversation_context s) (Some s) of
           Inr ((payload', context', None), st') \<Rightarrow>
             determine_next_question payload' context' = Inr ''DONE''
         | _ \<Rightarrow> False)"

text \<open>
  Consecutive requests to the travel agent, each with its clock reading, on the store
  that the previous request left; and the sequences all of whose messages are accepted.
\<close>

fun travel_turns :: "string \<Rightarrow> (timestamp \<times> string) list \<Rightarrow> store \<Rightarrow> store" where
  "travel_turns sid [] st = st"
| "travel_turns sid ((now, m) # ms) st =
     travel_turns sid ms (snd (run_travel_payload_agent now sid m st))"

fun all_accepted :: "string \<Rightarrow> (timestamp \<times> string) list \<Rightarrow> store \<Rightarrow> bool" where
  "all_accepted sid [] st = True"
| "all_accepted sid ((now, m) # ms) st =
     (accepted now sid m st \<and> all_accepted sid ms (snd (run_travel_payload_agent now sid m st)))"

text \<open>
  The same notions for the family agent, which has no branch question and whose Answer
  Processor also takes blank answers. For a session that awaits an answer the agent
  hands the stored payload and context to \<open>process_user_answer\<close>.
\<close>

definition awaiting_family :: "store \<Rightarrow> bool" where
  "awaiting_family st =
     (case st of
        None \<Rightarrow> False
      | Some s \<Rightarrow>
          (case (ci_family_payload (collected_info s), current_question_key (conversation_context s)) of
             (Some p, Some q) \<Rightarrow> q \<noteq> ''DONE'' \<and> determine_next_question_family (Some p) = Inr q
           | _ \<Rightarrow> False))"

definition fields_left_family :: "store \<Rightarrow> nat" where
  "fields_left_family st =
     (case st of
        None \<Rightarrow> 0
      | Some s \<Rightarrow> (case ci_family_payload (collected_info s) of
                     None \<Rightarrow> 0
                   | Some p \<Rightarrow> questions_left_family p))"

definition accepted_family :: "timestamp \<Rightarrow> string \<Rightarrow> string \<Rightarrow> store \<Rightarrow> bool" where
  "accepted_family now sid m st =
     (let s = load now sid st
      in case process_user_answer_family m (ci_family_payload (collected_info s))
                (conversation_context s) of
           Inr (payload', context', None) \<Rightarrow> True
         | _ \<Rightarrow> False)"

definition reaches_done_family :: "timestamp \<Rightarrow> string \<Rightarrow> string \<Rightarrow> store \<Rightarrow> bool" where
  "reaches_done_family now sid m st =
     (let s = load now sid st
      in case process_user_answer_family m (ci_family_payload (collected_info s))
                (conversation_context s) of
           Inr (payload', context', None) \<Rightarrow> determine_next_question_family payload' = Inr ''DONE''
         | _ \<Rightarrow> False)"

fun family_turns :: "string \<Rightarrow> (timestamp \<times> string) list \<Rightarrow> store \<Rightarrow> store" where
  "family_turns sid [] st = st"
| "family_turns sid ((now, m) # ms) st =
     family_turns sid ms (snd (run_family_payload_agent now sid m st))"

fun all_accepted_family :: "string \<Rightarrow> (timestamp \<times> string) list \<Rightarrow> store \<Rightarrow> bool" where
  "all_accepted_family sid [] st = True"
| "all_accepted_family sid ((now, m) # ms) st =
     (accepted_family now sid m st \<and>
      all_accepted_family sid ms (snd (run_family_payload_agent now sid m st)))"

section \<open>Concrete conversations\<close>

definition march_context :: "string \<Rightarrow> string \<Rightarrow> conv_context" where
  "march_context s e = empty_context\<lparr>policy_type_choice := Some ''single'',
     group_type_choice := Some ''myself'', start_date := Some s, end_date := Some e\<rparr>"

definition destination_context :: conv_context where
  "destination_context = empty_context\<lparr>current_question_key := Some ''destination'',
     policy_type_choice := Some ''single'', group_type_choice := Some ''myself''\<rparr>"

definition over_limit_context :: conv_context where
  "over_limit_context = empty_context\<lparr>primary_product := ''TRAVEL'',
     current_question_key := Some ''num_children'', policy_type_choice := Some ''annual'',
     group_type_choice := Some ''family'', num_adults := Some 3\<rparr>"

definition over_limit_session :: session where
  "over_limit_session = \<lparr>session_id = ''s'', stage = ''travel_collection'', chat_history = [],
     collected_info = \<lparr>ci_payload = Some (get_annual_trip_template\<lparr>travel :=
        (travel get_annual_trip_template)\<lparr>zone := Some ''A2''\<rparr>\<rparr>), ci_family_payload = None\<rparr>,
     conversation_context = over_limit_context, last_active = 0\<rparr>"

text \<open>
  A conversation is a sequence of requests to the chat endpoint, each handled by
  \<open>orchestrate_chat\<close> on the store the previous one left; the clock advances by one
  between requests.
\<close>

fun converse ::
    "classifier \<Rightarrow> quote_api \<Rightarrow> timestamp \<Rightarrow> string \<Rightarrow> string list \<Rightarrow> store \<Rightarrow> reply list \<times> store" where
  "converse cl api now sid [] st = ([], st)"
| "converse cl api now sid (m # ms) st =
     (let (r, st1) = orchestrate_chat cl api now sid m st;
          (rs, st2) = converse cl api (now + 1) sid ms st1
      in (r # rs, st2))"

definition travel_classifier :: classifier where
  "travel_classifier m h = \<lparr>product = TRAVEL, intent = ''quote''\<rparr>"

definition family_classifier :: classifier where
  "family_classifier m h = \<lparr>product = FAMILY, intent = ''quote''\<rparr>"

definition no_api :: quote_api where
  "no_api p x = ''{}''"

definition single_trip_messages :: "string list" where
  "single_trip_messages = [''travel insurance please'', ''single'', ''myself'', ''japan'',
     ''2025-03-01'', ''2025-03-05'', ''no'', ''no'', ''no'', ''me@example.com'', ''91234567'']"

definition bad_date_messages :: "string list" where
  "bad_date_messages = [''travel insurance please'', ''single'', ''myself'', ''japan'',
     ''tomorrow'', ''2025-03-05'', ''no'', ''no'', ''no'', ''me@example.com'', ''91234567'']"

definition family_messages :: "string list" where
  "family_messages = [''family insurance please'', ''myself'', ''2025-03-01'',
     ''me@example.com'', ''91234567'', ''no'']"

definition family_done_payload :: family_payload where
  "family_done_payload = get_family_payload_template
     \<lparr>policyInceptionDate := Some ''2025-03-01'', premiumType := Some ''monthly'',
      promoCode := Some [],
      internal := Some \<lparr>internal_email = Some ''me@example.com'',
                         internal_contact_mobile = Some ''91234567'',
                         insured_party = Some ''myself''\<rparr>\<rparr>"

definition travel_done_payload :: travel_payload where
  "travel_done_payload = get_single_trip_template
     \<lparr>travel := (travel get_single_trip_template)
        \<lparr>country_code := Some [''JPN''],
         selectedAddOns := \<lparr>preExAddOn = Some False, lossFFMAddOn = Some False,
                             flightDelayAddOn = Some False\<rparr>\<rparr>,
      leads := \<lparr>email = Some ''me@example.com'', contact_mobile = Some ''91234567''\<rparr>\<rparr>"

definition travel_final_payload :: travel_payload where
  "travel_final_payload = travel_done_payload
     \<lparr>travel := (travel travel_done_payload)
        \<lparr>number_of_days := Some 5,
         number_of_travellers := \<lparr>total = Some 1, child = [0], adult = [1], group = 1\<rparr>\<rparr>\<rparr>"

definition household_messages :: "string list" where
  "household_messages = [''travel insurance please'', ''single'', ''group of families'', ''2'', ''2,1'']"

definition households_context :: conv_context where
  "households_context = empty_context\<lparr>primary_product := ''TRAVEL'',
     current_question_key := Some ''household_info'', policy_type_choice := Some ''single'',
     group_type_choice := Some ''group_family'', num_households := Some 2,
     households_to_collect := Some 2, households_collected := Some 0,
     households_data := Some []\<rparr>"

definition awaiting_email_payload :: travel_payload where
  "awaiting_email_payload = travel_done_payload\<lparr>leads := \<lparr>email = None, contact_mobile = None\<rparr>\<rparr>"

definition awaiting_email_context :: conv_context where
  "awaiting_email_context =
     (march_context ''2025-03-01'' ''2025-03-05'')\<lparr>current_question_key := Some ''email''\<rparr>"

definition family_email_payload :: family_payload where
  "family_email_payload = family_done_payload
     \<lparr>promoCode := None,
      internal := Some \<lparr>internal_email = None, internal_contact_mobile = None,
                         insured_party = Some ''myself''\<rparr>\<rparr>"


text \<open>
  A travel session that has been asked for the policy type, the stores after the answers
  \<open>single\<close> and \<open>myself\<close>, and the answers to the remaining questions but the last; a
  family session, the store after its first message, and the answers that follow but
  the last.
\<close>

definition policy_session :: session where
  "policy_session = (get_default_session 0 ''s'')
     \<lparr>stage := ''travel_collection'',
      conversation_context := empty_context\<lparr>primary_product := ''TRAVEL'',
         current_question_key := Some ''policy_type''\<rparr>\<rparr>"

definition asked_store :: store where
  "asked_store = snd (run_travel_payload_agent 1 ''s'' ''single'' (Some policy_session))"

definition chosen_store :: store where
  "chosen_store = snd (run_travel_payload_agent 2 ''s'' ''myself'' asked_store)"

definition single_trip_answers :: "(timestamp \<times> string) list" where
  "single_trip_answers = [(3, ''japan''), (4, ''2025-03-01''), (5, ''2025-03-05''), (6, ''no''),
     (7, ''no''), (8, ''no''), (9, ''me@example.com'')]"

definition family_session :: session where
  "family_session = (get_default_session 0 ''s'')
     \<lparr>stage := ''family_collection'',
      conversation_context := empty_context\<lparr>primary_product := ''FAMILY''\<rparr>\<rparr>"

definition family_asked_store :: store where
  "family_asked_store =
     snd (run_family_payload_agent 1 ''s'' ''family insurance please'' (Some family_session))"

definition family_answers :: "(timestamp \<times> string) list" where
  "family_answers = [(2, ''myself''), (3, ''2025-03-01''), (4, ''me@example.com''),
     (5, ''91234567'')]"

section \<open>Properties\<close>

subsection \<open>Trip duration\<close>

lemma finalize_group_Some: "\<exists>q. finalize_group (Some p) c = Inr (Some q)"
  by (simp add: finalize_group_def with_payload_def Let_def)





subsection \<open>Destinations\<close>

lemma country_codes_nonempty:
  "map_of get_country_code_map n = Some code \<Longrightarrow> code \<noteq> []"
  by (drule map_of_SomeD) (auto simp add: get_country_code_map_def)

lemma lookup_countries_eq:
  "lookup_countries xs codes unknown =
     (codes @ List.map_filter (map_of get_country_code_map) xs,
      unknown @ filter (\<lambda>n. map_of get_country_code_map n = None) xs)"
proof (induction xs arbitrary: codes unknown)
  case Nil
  then show ?case by (simp add: List.map_filter_simps)
next
  case (Cons x xs)
  show ?case
  proof (cases "map_of get_country_code_map x")
    case None
    then show ?thesis using Cons by (simp add: List.map_filter_simps)
  next
    case (Some code)
    then have "code \<noteq> []" by (rule country_codes_nonempty)
    then show ?thesis using Cons Some by (simp add: List.map_filter_simps)
  qed
qed

lemma map_filter_all_Some:
  "filter (\<lambda>n. f n = None) xs = [] \<Longrightarrow> map Some (List.map_filter f xs) = map f xs"
  by (induction xs) (auto simp add: List.map_filter_simps split: if_splits)

lemma answer_step_destination:
  "answer_step ''destination'' (strip user_message) payload context =
     (let tokens = destination_tokens user_message in
      if length tokens > 10 then Inr (True, payload, context, Some too_many_countries_msg)
      else if unrecognized tokens \<noteq> [] then
        Inr (True, payload, context, Some (unknown_countries_msg (unrecognized tokens)))
      else (case payload of None \<Rightarrow> Inl TypeError
            | Some q \<Rightarrow> Inr (False, Some (q\<lparr>travel := (travel q)\<lparr>country_code :=
                 Some (List.map_filter (map_of get_country_code_map) tokens)\<rparr>\<rparr>), context, None)))"
  by (simp add: answer_step_def destination_tokens_def unrecognized_def
      lookup_countries_eq with_payload_def Let_def split: option.splits)

lemma tokens_japan_atlantis_france:
  "destination_tokens ''Japan, Atlantis, France'' = [''japan'', ''atlantis'', ''france'']"
  by (simp add: destination_tokens_def strip_def is_space_def lower_def lower_char_def
      upper_chars_def lower_chars_def)

lemma unrecognized_japan_atlantis_france:
  "unrecognized [''japan'', ''atlantis'', ''france''] = [''atlantis'']"
  by (simp add: unrecognized_def get_country_code_map_def)

text \<open>
  Claim C2. While the destination question is awaited: an answer of more than ten tokens
  is rejected with the re-prompt; otherwise, if some token is not in the country table,
  the answer is rejected with the message that lists exactly the unrecognized tokens, and
  payload, context and store are returned as they were; and when every token is
  recognized, the codes of all tokens, in order, become the payload's \<open>country_code\<close>.
\<close>

theorem destination_all_or_nothing:
  assumes "current_question_key context = Some ''destination''"
  shows "(length (destination_tokens user_message) > 10 \<longrightarrow>
            process_user_answer now sid user_message payload context st =
              Inr ((payload, context, Some too_many_countries_msg), st)) \<and>
         (length (destination_tokens user_message) \<le> 10 \<and>
          unrecognized (destination_tokens user_message) \<noteq> [] \<longrightarrow>
            process_user_answer now sid user_message payload context st =
              Inr ((payload, context,
                    Some (unknown_countries_msg (unrecognized (destination_tokens user_message)))), st)) \<and>
         (length (destination_tokens user_message) \<le> 10 \<and>
          unrecognized (destination_tokens user_message) = [] \<and> payload = Some p \<longrightarrow>
            (\<exists>codes. map Some codes = map (map_of get_country_code_map) (destination_tokens user_message) \<and>
               process_user_answer now sid user_message payload context st =
                 Inr ((Some (p\<lparr>travel := (travel p)\<lparr>country_code := Some codes\<rparr>\<rparr>), context, None),
                      update_conversation_context now sid context st)))"
proof -
  have codes: "unrecognized (destination_tokens user_message) = [] \<Longrightarrow>
      map Some (List.map_filter (map_of get_country_code_map) (destination_tokens user_message)) =
      map (map_of get_country_code_map) (destination_tokens user_message)"
    unfolding unrecognized_def by (rule map_filter_all_Some)
  show ?thesis
    using assms codes
    by (auto simp add: process_user_answer_def answer_step_destination Let_def)
qed

text \<open>
  The example of the specification: \<open>Japan, Atlantis, France\<close> is rejected, the message
  names \<open>atlantis\<close> only, and the payload keeps its empty list of codes.
\<close>

theorem destination_all_or_nothing_witness:
  "process_user_answer 0 ''s'' ''Japan, Atlantis, France'' (Some get_single_trip_template)
      destination_context None =
     Inr ((Some get_single_trip_template, destination_context,
           Some ''I don't have information for: atlantis. Please choose from the available destinations.''),
          None)"
proof -
  have k: "current_question_key destination_context = Some ''destination''"
    by (simp add: destination_context_def)
  show ?thesis
    using destination_all_or_nothing [OF k, of "''Japan, Atlantis, France''" 0 "''s''"
        "Some get_single_trip_template" None get_single_trip_template]
    by (simp add: tokens_japan_atlantis_france unrecognized_japan_atlantis_france
        unknown_countries_msg_def)
qed

subsection \<open>The limit of the annual family plan\<close>

lemma marker_after_update:
  "current_question_key c = Some k \<Longrightarrow>
   current_question_key (conversation_context (load now sid (update_conversation_context now sid c st))) = Some k"
  by (simp add: update_conversation_context_def load_def merge_context_def keep_def Let_def)

text \<open>
  Claim C7. While the children count is awaited on an annual family plan: if the answer
  is an integer and the adult count exceeds 2 or the answer exceeds 5, the Answer
  Processor returns the explanatory message, its context has neither count and awaits
  \<open>num_adults\<close>, and the marker it writes to the store is \<open>num_adults\<close> as well.
\<close>

theorem annual_family_over_limit:
  assumes "current_question_key context = Some ''num_children''"
    and "policy_type_choice context = Some ''annual''"
    and "group_type_choice context = Some ''family''"
    and "py_int (strip user_message) = Inr n"
    and "or0 (num_adults context) > 2 \<or> n > 5"
  shows "process_user_answer now sid user_message payload context st =
           Inr ((payload,
                 context\<lparr>num_adults := None, num_children := None,
                         current_question_key := Some ''num_adults''\<rparr>,
                 Some annual_family_limit_msg),
                update_conversation_context now sid
                  (context\<lparr>num_adults := None, num_children := None,
                           current_question_key := Some ''num_adults''\<rparr>) st) \<and>
         current_question_key (conversation_context (load now sid
            (update_conversation_context now sid
               (context\<lparr>num_adults := None, num_children := None,
                        current_question_key := Some ''num_adults''\<rparr>) st))) = Some ''num_adults''"
proof -
  have "answer_step ''num_children'' (strip user_message) payload context =
          Inr (False, payload,
               context\<lparr>num_adults := None, num_children := None,
                       current_question_key := Some ''num_adults''\<rparr>,
               Some annual_family_limit_msg)"
    using assms(2-5) by (simp add: answer_step_def or0_def Let_def)
  then show ?thesis
    using assms(1) by (simp add: process_user_answer_def marker_after_update)
qed

text \<open>
  Three adults, then one child. The context returned has lost both counts; the stored
  context, which is only ever written key by key, still holds the three adults, under a
  marker that makes the next answer overwrite them.
\<close>

theorem annual_family_over_limit_witness:
  "process_user_answer 5 ''s'' ''1'' (ci_payload (collected_info over_limit_session))
      over_limit_context (Some over_limit_session) =
     Inr ((ci_payload (collected_info over_limit_session),
           over_limit_context\<lparr>num_adults := None, current_question_key := Some ''num_adults''\<rparr>,
           Some annual_family_limit_msg),
          Some (over_limit_session\<lparr>conversation_context :=
              over_limit_context\<lparr>current_question_key := Some ''num_adults''\<rparr>, last_active := 5\<rparr>))"
proof -
  have a: "current_question_key over_limit_context = Some ''num_children''"
    and b: "policy_type_choice over_limit_context = Some ''annual''"
    and c: "group_type_choice over_limit_context = Some ''family''"
    and e: "or0 (num_adults over_limit_context) > 2 \<or> (1::int) > 5"
    by (simp_all add: over_limit_context_def or0_def)
  have d: "py_int (strip ''1'') = Inr 1"
    by (simp add: py_int_def strip_def is_space_def digit_val_def)
  show ?thesis
    using annual_family_over_limit [OF a b c d e, of 5 "''s''"
        "ci_payload (collected_info over_limit_session)" "Some over_limit_session"]
    by (simp add: update_conversation_context_def load_def merge_context_def keep_def
        over_limit_context_def over_limit_session_def empty_context_def)
qed

subsection \<open>The start of a travel collection\<close>

text \<open>
  Claim C10. When the stored context has no awaiting-field marker, the travel agent
  replies with the policy-type question and the only change to the session is the marker,
  now \<open>policy_type\<close> (and the time of last activity): the message is not read.
\<close>

theorem travel_start_asks_policy_type:
  assumes "falsy (current_question_key (conversation_context (load now sid st)))"
  shows "run_travel_payload_agent now sid user_message st =
     (Inr (Text ''Are you looking for a **Single Trip** or an **Annual Multi-Trip** policy?''),
      Some ((load now sid st)\<lparr>conversation_context :=
               (conversation_context (load now sid st))\<lparr>current_question_key := Some ''policy_type''\<rparr>,
             last_active := now\<rparr>))"
  using assms
  by (cases st) (simp_all add: run_travel_payload_agent_def get_session_def load_def
      set_current_question_key_def QUESTION_MAP_def Let_def)

theorem travel_start_asks_policy_type_witness:
  "run_travel_payload_agent 3 ''s'' ''I am going to Japan next week, annual cover'' None =
     (Inr (Text ''Are you looking for a **Single Trip** or an **Annual Multi-Trip** policy?''),
      Some ((get_default_session 3 ''s'')\<lparr>conversation_context :=
               empty_context\<lparr>current_question_key := Some ''policy_type''\<rparr>\<rparr>))"
proof -
  have "falsy (current_question_key (conversation_context (load 3 ''s'' None)))"
    by (simp add: falsy_def load_def get_default_session_def empty_context_def)
  from travel_start_asks_policy_type [OF this, of "''I am going to Japan next week, annual cover''"]
  show ?thesis
    by (simp add: load_def get_default_session_def)
qed

subsection \<open>Travel dates are stored as typed\<close>

lemma travel_dates_always_accepted:
  assumes "current_question_key context = Some ''start_date'' \<or>
           current_question_key context = Some ''end_date''"
  shows "\<exists>context' st'. process_user_answer now sid user_message payload context st =
           Inr ((payload, context', None), st')"
  using assms by (auto simp add: process_user_answer_def answer_step_def)

text \<open>
  Claim C4 fails on the travel dates. In a single-trip conversation the answer
  \<open>tomorrow\<close> to the start-date question is followed by the end-date question, not by a
  validation error; the string is parsed only when the payload is finalized, where the
  ValueError ends the request in the apology. The family agent rejects the same answer to
  its own date question with the validation message.
\<close>

theorem travel_date_not_validated:
  "fst (converse travel_classifier no_api 0 ''s'' bad_date_messages None) =
     [Text ''Are you looking for a **Single Trip** or an **Annual Multi-Trip** policy?'',
      Text ''Who will be traveling? (Yourself, Family, Group of Adults, or Group of Family)'',
      Text ''Where are you traveling to? You can enter one or more countries separated by commas (max 10).'',
      Text ''What is your travel start date (YYYY-MM-DD)?'',
      Text ''And what is your travel end date (YYYY-MM-DD)?'',
      Text ''Do you need coverage for pre-existing medical conditions? (yes/no)'',
      Text ''Add coverage for Loss of Frequent Flyer Miles? (yes/no)'',
      Text ''Add the Flight Delay benefit? (yes/no)'',
      Text ''What is your email address?'',
      Text ''Finally, what is your 8-digit contact mobile number?'',
      Text apology_msg] \<and>
   strptime (replace ''/'' ''-'' ''tomorrow'') = Inl ValueError \<and>
   process_user_answer_family ''tomorrow'' (Some get_family_payload_template)
      (empty_context\<lparr>current_question_key := Some ''policyInceptionDate''\<rparr>) =
     Inr (Some get_family_payload_template,
          empty_context\<lparr>current_question_key := Some ''policyInceptionDate''\<rparr>,
          Some bad_date_msg)"
  by code_simp

subsection \<open>The coupon-code question\<close>

text \<open>
  Claim C5 fails. Both templates start with the coupon code \<open>""\<close>, which is not
  \<open>None\<close>, so the test that would ask for the coupon code never holds: in a complete
  single-trip conversation the email question follows the last add-on.
\<close>

theorem coupon_code_question_skipped:
  "fst (converse travel_classifier no_api 0 ''s'' single_trip_messages None) =
     [Text ''Are you looking for a **Single Trip** or an **Annual Multi-Trip** policy?'',
      Text ''Who will be traveling? (Yourself, Family, Group of Adults, or Group of Family)'',
      Text ''Where are you traveling to? You can enter one or more countries separated by commas (max 10).'',
      Text ''What is your travel start date (YYYY-MM-DD)?'',
      Text ''And what is your travel end date (YYYY-MM-DD)?'',
      Text ''Do you need coverage for pre-existing medical conditions? (yes/no)'',
      Text ''Add coverage for Loss of Frequent Flyer Miles? (yes/no)'',
      Text ''Add the Flight Delay benefit? (yes/no)'',
      Text ''What is your email address?'',
      Text ''Finally, what is your 8-digit contact mobile number?'',
      Text ''Thank you, I have all the information. Generating your quote now...'']"
  by code_simp

subsection \<open>The first message of a family conversation\<close>

lemma family_first_message_is_premium_answer:
  assumes "falsy (current_question_key (conversation_context (load now sid st)))"
  shows "fst (run_family_payload_agent now sid user_message st) =
           Inr (Text ''Who is this plan for? (**Myself**, **Myself with Child(ren)**, or **Family**)'')"
  using assms
  by (cases st)
     (simp_all add: run_family_payload_agent_def get_session_def load_def
        process_user_answer_family_def with_family_def determine_next_question_family_def
        get_family_payload_template_def internal_get_def QUESTION_MAP_family_def Let_def)

text \<open>
  Claim C6 fails. The family agent treats the message that starts the conversation as the
  answer to the premium-frequency question: the reply is the insured-party question, and
  \<open>premiumType\<close> is already \<open>monthly\<close>, taken from a message that was never an answer.
\<close>

theorem family_premium_question_skipped:
  "(case converse family_classifier no_api 0 ''s'' [''family insurance please''] None of
      (replies, Some s) \<Rightarrow>
         replies = [Text ''Who is this plan for? (**Myself**, **Myself with Child(ren)**, or **Family**)''] \<and>
         map_option premiumType (ci_family_payload (collected_info s)) = Some (Some ''monthly'') \<and>
         current_question_key (conversation_context s) = Some ''insured_party''
    | _ \<Rightarrow> False)"
  by code_simp

subsection \<open>What the resolver's answer says about the state\<close>

lemma falsy_simps:
  "falsy None" "falsy (Some [])" "\<not> falsy (Some (x # xs))"
  by (simp_all add: falsy_def)

lemma next_question_conditions:
  assumes "determine_next_question (Some p) c = Inr k"
  shows "(k = ''group_type_annual'' \<or> k = ''group_type_single'' \<longrightarrow> falsy (group_type_choice c)) \<and>
         (k = ''zone'' \<longrightarrow> falsy (zone (travel p))) \<and>
         (k = ''num_adults'' \<longrightarrow> num_adults c = None) \<and>
         (k = ''num_children'' \<longrightarrow> num_children c = None) \<and>
         (k = ''num_adults_group'' \<longrightarrow> num_adults_group c = None) \<and>
         (k = ''num_households'' \<longrightarrow> num_households c = None) \<and>
         (k = ''household_info'' \<longrightarrow> or0 (households_collected c) < or0 (households_to_collect c)) \<and>
         (k = ''destination'' \<longrightarrow> falsy_list (country_code (travel p))) \<and>
         (k = ''start_date'' \<longrightarrow> falsy (start_date c)) \<and>
         (k = ''end_date'' \<longrightarrow> falsy (end_date c)) \<and>
         (k = ''addon_pre_ex'' \<longrightarrow> preExAddOn (selectedAddOns (travel p)) = None) \<and>
         (k = ''addon_ffm'' \<longrightarrow> lossFFMAddOn (selectedAddOns (travel p)) = None) \<and>
         (k = ''addon_flight_delay'' \<longrightarrow> flightDelayAddOn (selectedAddOns (travel p)) = None) \<and>
         (k = ''coupon_code'' \<longrightarrow> coupon_code (promotion p) = None) \<and>
         (k = ''email'' \<longrightarrow> falsy (email (leads p))) \<and>
         (k = ''contact_mobile'' \<longrightarrow> falsy (contact_mobile (leads p))) \<and>
         k \<noteq> ''policy_type'' \<and>
         (k = ''DONE'' \<longrightarrow> \<not> falsy (email (leads p)) \<and> \<not> falsy (contact_mobile (leads p)) \<and>
              coupon_code (promotion p) \<noteq> None \<and> \<not> falsy (group_type_choice c) \<and>
              preExAddOn (selectedAddOns (travel p)) \<noteq> None \<and>
              (policy_type_choice c = Some ''annual'' \<longrightarrow> \<not> falsy (zone (travel p))) \<and>
              (policy_type_choice c \<noteq> Some ''annual'' \<longrightarrow>
                 \<not> falsy_list (country_code (travel p)) \<and> \<not> falsy (start_date c) \<and>
                 \<not> falsy (end_date c)))"
proof -
  consider (fam) "group_type_choice c = Some ''family''"
    | (ga) "group_type_choice c = Some ''group_adults''"
    | (gf) "group_type_choice c = Some ''group_family''"
    | (other) "group_type_choice c \<noteq> Some ''family''" "group_type_choice c \<noteq> Some ''group_adults''"
        "group_type_choice c \<noteq> Some ''group_family''"
    by blast
  then show ?thesis
  proof cases
    case fam
    with assms show ?thesis
      by (auto simp add: determine_next_question_def tail_questions_def falsy_simps Let_def split: if_splits)
  next
    case ga
    with assms show ?thesis
      by (auto simp add: determine_next_question_def tail_questions_def falsy_simps Let_def split: if_splits)
  next
    case gf
    with assms show ?thesis
      by (auto simp add: determine_next_question_def tail_questions_def falsy_simps Let_def split: if_splits)
  next
    case other
    with assms show ?thesis
      by (auto simp add: determine_next_question_def tail_questions_def falsy_simps Let_def split: if_splits)
  qed
qed

lemma next_question_conditions_None:
  assumes "determine_next_question None c = Inr k"
  shows "(k = ''group_type_annual'' \<or> k = ''group_type_single'' \<longrightarrow> falsy (group_type_choice c)) \<and>
         (k = ''num_adults'' \<longrightarrow> num_adults c = None) \<and>
         (k = ''num_children'' \<longrightarrow> num_children c = None) \<and>
         (k = ''num_adults_group'' \<longrightarrow> num_adults_group c = None) \<and>
         (k = ''num_households'' \<longrightarrow> num_households c = None) \<and>
         (k = ''household_info'' \<longrightarrow> or0 (households_collected c) < or0 (households_to_collect c)) \<and>
         k \<noteq> ''zone'' \<and> k \<noteq> ''destination'' \<and> k \<noteq> ''start_date'' \<and> k \<noteq> ''end_date'' \<and>
         k \<noteq> ''addon_pre_ex'' \<and> k \<noteq> ''addon_ffm'' \<and> k \<noteq> ''addon_flight_delay'' \<and>
         k \<noteq> ''coupon_code'' \<and> k \<noteq> ''email'' \<and> k \<noteq> ''contact_mobile'' \<and>
         k \<noteq> ''policy_type'' \<and> k \<noteq> ''DONE''"
proof -
  consider (fam) "group_type_choice c = Some ''family''"
    | (ga) "group_type_choice c = Some ''group_adults''"
    | (gf) "group_type_choice c = Some ''group_family''"
    | (other) "group_type_choice c \<noteq> Some ''family''" "group_type_choice c \<noteq> Some ''group_adults''"
        "group_type_choice c \<noteq> Some ''group_family''"
    by blast
  then show ?thesis
  proof cases
    case fam
    with assms show ?thesis
      by (auto simp add: determine_next_question_def falsy_simps Let_def split: if_splits)
  next
    case ga
    with assms show ?thesis
      by (auto simp add: determine_next_question_def falsy_simps Let_def split: if_splits)
  next
    case gf
    with assms show ?thesis
      by (auto simp add: determine_next_question_def falsy_simps Let_def split: if_splits)
  next
    case other
    with assms show ?thesis
      by (auto simp add: determine_next_question_def falsy_simps Let_def split: if_splits)
  qed
qed


subsection \<open>The leaves of a finalized payload\<close>

lemma finalize_group_leaves:
  assumes "finalize_group (Some p) c = Inr (Some q)"
    and "group_type_choice c = Some g" and "g \<in> set group_types"
  shows "country_code (travel q) = country_code (travel p) \<and> zone (travel q) = zone (travel p) \<and>
         number_of_days (travel q) = number_of_days (travel p) \<and>
         total (number_of_travellers (travel q)) \<noteq> None \<and>
         promotion q = promotion p \<and> leads q = leads p"
  using assms
  by (auto simp add: finalize_group_def with_payload_def set_travellers_def group_types_def Let_def
      split: if_splits)

lemma finalize_payload_leaves:
  assumes "finalize_payload (Some p) c = Inr (Some q)"
    and "group_type_choice c = Some g" and "g \<in> set group_types"
  shows "country_code (travel q) = country_code (travel p) \<and> zone (travel q) = zone (travel p) \<and>
         (if policy_type_choice c = Some ''single'' then number_of_days (travel q) \<noteq> None
          else number_of_days (travel q) = number_of_days (travel p)) \<and>
         total (number_of_travellers (travel q)) \<noteq> None \<and>
         promotion q = promotion p \<and> leads q = leads p"
proof -
  obtain p1 where p1: "finalize_group (Some p) c = Inr (Some p1)"
    using finalize_group_Some by blast
  note l = finalize_group_leaves [OF p1 assms(2,3)]
  show ?thesis
    using assms(1) p1 l
    by (auto simp add: finalize_payload_def with_payload_def split: if_splits option.splits sum.splits)
qed


lemma falsy_None: "\<not> falsy x \<Longrightarrow> x \<noteq> None"
  by (auto simp add: falsy_def)

lemma falsy_list_None: "\<not> falsy_list x \<Longrightarrow> x \<noteq> None"
  by (auto simp add: falsy_list_def)

lemma family_done_finalized:
  assumes "determine_next_question_family (Some fp) = Inr ''DONE''"
  shows "finalize_payload_family (Some fp) = Inr (Some (fp\<lparr>internal := None\<rparr>)) \<and>
         unset_leaves_family (fp\<lparr>internal := None\<rparr>) =
           (if CEPReferralCode fp = None then [''CEPReferralCode''] else [])"
  using assms
  by (auto simp add: determine_next_question_family_def finalize_payload_family_def
      unset_leaves_family_def split: if_splits)

lemma travel_done_finalized:
  assumes dn: "determine_next_question (Some p) c = Inr ''DONE''"
    and fin: "finalize_payload (Some p) c = Inr (Some q)"
    and g: "group_type_choice c = Some g" "g \<in> set group_types"
  shows "unset_leaves_travel q =
           (if policy_type_choice c = Some ''single''
            then (if zone (travel p) = None then [''zone''] else [])
            else (if country_code (travel p) = None then [''country_code''] else []) @
                 (if number_of_days (travel p) = None then [''number_of_days''] else []) @
                 (if zone (travel p) = None then [''zone''] else []))"
proof -
  note l = finalize_payload_leaves [OF fin g]
  note d = next_question_conditions [OF dn]
  from d have e: "email (leads p) \<noteq> None" and m: "contact_mobile (leads p) \<noteq> None"
    and cc: "coupon_code (promotion p) \<noteq> None"
    using falsy_None by auto
  have single: "policy_type_choice c = Some ''single'' \<Longrightarrow> country_code (travel p) \<noteq> None"
    using d falsy_list_None by auto
  show ?thesis
  proof (cases "policy_type_choice c = Some ''single''")
    case True
    with l e m cc single show ?thesis
      by (auto simp add: unset_leaves_travel_def)
  next
    case False
    with l e m cc show ?thesis
      by (auto simp add: unset_leaves_travel_def)
  qed
qed

text \<open>
  Claim C8, amended. When the resolver says DONE, finalization deletes the family
  \<open>_internal\<close> structure, and every leaf that a question or the finalizer fills is set.
  The leaves still \<open>None\<close> are those the template leaves to no question: of a family
  payload \<open>CEPReferralCode\<close>; of a single-trip payload \<open>zone\<close>; of an annual payload
  \<open>country_code\<close> (and \<open>number_of_days\<close> and \<open>zone\<close> only if they were unset before).
\<close>

theorem finalized_payload_unset_leaves:
  "(determine_next_question_family (Some fp) = Inr ''DONE'' \<longrightarrow>
      (\<exists>fq. finalize_payload_family (Some fp) = Inr (Some fq) \<and> internal fq = None \<and>
            unset_leaves_family fq = (if CEPReferralCode fp = None then [''CEPReferralCode''] else []))) \<and>
   (determine_next_question (Some p) c = Inr ''DONE'' \<and>
    finalize_payload (Some p) c = Inr (Some q) \<and>
    group_type_choice c = Some g \<and> g \<in> set group_types \<longrightarrow>
      unset_leaves_travel q =
        (if policy_type_choice c = Some ''single''
         then (if zone (travel p) = None then [''zone''] else [])
         else (if country_code (travel p) = None then [''country_code''] else []) @
              (if number_of_days (travel p) = None then [''number_of_days''] else []) @
              (if zone (travel p) = None then [''zone''] else [])))"
  using family_done_finalized [of fp] travel_done_finalized [of p c q g]
  by auto

theorem finalized_payload_unset_leaves_witness:
  "determine_next_question_family (Some family_done_payload) = Inr ''DONE'' \<and>
   (\<exists>fq. finalize_payload_family (Some family_done_payload) = Inr (Some fq) \<and>
         internal fq = None \<and> unset_leaves_family fq = [''CEPReferralCode'']) \<and>
   determine_next_question (Some travel_done_payload)
      (march_context ''2025-03-01'' ''2025-03-05'') = Inr ''DONE'' \<and>
   finalize_payload (Some travel_done_payload)
      (march_context ''2025-03-01'' ''2025-03-05'') = Inr (Some travel_final_payload) \<and>
   unset_leaves_travel travel_final_payload = [''zone'']"
proof -
  have f: "determine_next_question_family (Some family_done_payload) = Inr ''DONE''"
    by code_simp
  have r: "CEPReferralCode family_done_payload = None"
    by (simp add: family_done_payload_def get_family_payload_template_def)
  have d: "determine_next_question (Some travel_done_payload)
             (march_context ''2025-03-01'' ''2025-03-05'') = Inr ''DONE''"
    by code_simp
  have e: "finalize_payload (Some travel_done_payload)
             (march_context ''2025-03-01'' ''2025-03-05'') = Inr (Some travel_final_payload)"
    by code_simp
  have g: "group_type_choice (march_context ''2025-03-01'' ''2025-03-05'') = Some ''myself''"
    "''myself'' \<in> set group_types"
    "policy_type_choice (march_context ''2025-03-01'' ''2025-03-05'') = Some ''single''"
    "zone (travel travel_done_payload) = None"
    by (simp_all add: march_context_def empty_context_def group_types_def
        travel_done_payload_def get_single_trip_template_def)
  show ?thesis
    using finalized_payload_unset_leaves [of family_done_payload travel_done_payload
        "march_context ''2025-03-01'' ''2025-03-05''" travel_final_payload "''myself''"]
      f r d e g
    by simp
qed

text \<open>
  Claim C8 as stated fails: the payloads that two complete conversations store for the
  quotation service hold \<open>None\<close> leaves.
\<close>

theorem finalized_payload_has_unset_leaf:
  "(case converse family_classifier no_api 0 ''s'' family_messages None of
      (replies, Some s) \<Rightarrow>
         stage s = ''quote_generation'' \<and> last replies = Text done_msg_family \<and>
         map_option unset_leaves_family (ci_family_payload (collected_info s)) =
           Some [''CEPReferralCode'']
    | _ \<Rightarrow> False) \<and>
   (case converse travel_classifier no_api 0 ''s'' single_trip_messages None of
      (replies, Some s) \<Rightarrow>
         stage s = ''quote_generation'' \<and> last replies = Text done_msg_travel \<and>
         map_option unset_leaves_travel (ci_payload (collected_info s)) = Some [''zone'']
    | _ \<Rightarrow> False)"
  by code_simp

subsection \<open>A question that has been answered\<close>

lemma next_question_needs:
  assumes "determine_next_question payload c = Inr k"
  shows "(k = ''group_type_annual'' \<or> k = ''group_type_single'' \<longrightarrow> falsy (group_type_choice c)) \<and>
    (k = ''zone'' \<longrightarrow> (\<exists>p. payload = Some p \<and> falsy (zone (travel p)))) \<and>
    (k = ''num_adults'' \<longrightarrow> num_adults c = None) \<and>
    (k = ''num_children'' \<longrightarrow> num_children c = None) \<and>
    (k = ''num_adults_group'' \<longrightarrow> num_adults_group c = None) \<and>
    (k = ''num_households'' \<longrightarrow> num_households c = None) \<and>
    (k = ''household_info'' \<longrightarrow> or0 (households_collected c) < or0 (households_to_collect c)) \<and>
    (k = ''destination'' \<longrightarrow> (\<exists>p. payload = Some p \<and> falsy_list (country_code (travel p)))) \<and>
    (k = ''start_date'' \<longrightarrow> falsy (start_date c)) \<and>
    (k = ''end_date'' \<longrightarrow> falsy (end_date c)) \<and>
    (k = ''addon_pre_ex'' \<longrightarrow> (\<exists>p. payload = Some p \<and> preExAddOn (selectedAddOns (travel p)) = None)) \<and>
    (k = ''addon_ffm'' \<longrightarrow> (\<exists>p. payload = Some p \<and> lossFFMAddOn (selectedAddOns (travel p)) = None)) \<and>
    (k = ''addon_flight_delay'' \<longrightarrow> (\<exists>p. payload = Some p \<and> flightDelayAddOn (selectedAddOns (travel p)) = None)) \<and>
    (k = ''coupon_code'' \<longrightarrow> (\<exists>p. payload = Some p \<and> coupon_code (promotion p) = None)) \<and>
    (k = ''email'' \<longrightarrow> (\<exists>p. payload = Some p \<and> falsy (email (leads p)))) \<and>
    (k = ''contact_mobile'' \<longrightarrow> (\<exists>p. payload = Some p \<and> falsy (contact_mobile (leads p)))) \<and>
    k \<noteq> ''policy_type''"
proof (cases payload)
  case None
  with assms show ?thesis
    using next_question_conditions_None [of c k] by simp
next
  case (Some p)
  with assms show ?thesis
    using next_question_conditions [of p c k] by simp
qed

lemma replace_nonempty: "s \<noteq> [] \<Longrightarrow> replace ''/'' ''-'' s \<noteq> []"
  by (cases s) simp_all

lemma lookup_countries_length:
  "length (fst (lookup_countries xs codes unknown)) + length (snd (lookup_countries xs codes unknown)) =
   length codes + length unknown + length xs"
  by (induction xs arbitrary: codes unknown) (auto split: option.splits)

lemma split_on_nonempty: "split_on d s \<noteq> []"
  by (induction s) (auto split: list.splits)

lemma not_again_policy_type:
  "determine_next_question payload' context' \<noteq> Inr ''policy_type''"
  using next_question_needs [of payload' context' "''policy_type''"] by auto

lemma not_again_group_type_single:
  assumes "answer_step ''group_type_single'' a payload context = Inr (r, payload', context', None)"
  shows "determine_next_question payload' context' \<noteq> Inr ''group_type_single''"
  using assms next_question_needs [of payload' context' "''group_type_single''"]
  by (auto simp add: answer_step_def falsy_simps Let_def split: if_splits)

lemma not_again_group_type_annual:
  assumes "answer_step ''group_type_annual'' a payload context = Inr (r, payload', context', None)"
  shows "determine_next_question payload' context' \<noteq> Inr ''group_type_annual''"
  using assms next_question_needs [of payload' context' "''group_type_annual''"]
  by (auto simp add: answer_step_def falsy_simps Let_def split: if_splits)

lemma not_again_zone:
  assumes "answer_step ''zone'' a payload context = Inr (r, payload', context', None)"
  shows "determine_next_question payload' context' \<noteq> Inr ''zone''"
  using assms next_question_needs [of payload' context' "''zone''"]
  by (auto simp add: answer_step_def with_payload_def falsy_simps split: if_splits option.splits)

lemma not_again_start_date:
  assumes "answer_step ''start_date'' a payload context = Inr (r, payload', context', None)"
    and "a \<noteq> []"
  shows "determine_next_question payload' context' \<noteq> Inr ''start_date''"
  using assms next_question_needs [of payload' context' "''start_date''"] replace_nonempty [of a]
  by (auto simp add: answer_step_def with_payload_def falsy_simps Let_def falsy_def split: if_splits option.splits)

lemma not_again_end_date:
  assumes "answer_step ''end_date'' a payload context = Inr (r, payload', context', None)"
    and "a \<noteq> []"
  shows "determine_next_question payload' context' \<noteq> Inr ''end_date''"
  using assms next_question_needs [of payload' context' "''end_date''"] replace_nonempty [of a]
  by (auto simp add: answer_step_def with_payload_def falsy_simps Let_def falsy_def split: if_splits option.splits)

lemma not_again_num_adults:
  assumes "answer_step ''num_adults'' a payload context = Inr (r, payload', context', None)"
  shows "determine_next_question payload' context' \<noteq> Inr ''num_adults''"
  using assms next_question_needs [of payload' context' "''num_adults''"]
  by (auto simp add: answer_step_def with_payload_def falsy_simps Let_def split: if_splits option.splits sum.splits)

lemma not_again_num_children:
  assumes "answer_step ''num_children'' a payload context = Inr (r, payload', context', None)"
  shows "determine_next_question payload' context' \<noteq> Inr ''num_children''"
  using assms next_question_needs [of payload' context' "''num_children''"]
  by (auto simp add: answer_step_def with_payload_def falsy_simps Let_def split: if_splits option.splits sum.splits)

lemma not_again_num_adults_group:
  assumes "answer_step ''num_adults_group'' a payload context = Inr (r, payload', context', None)"
  shows "determine_next_question payload' context' \<noteq> Inr ''num_adults_group''"
  using assms next_question_needs [of payload' context' "''num_adults_group''"]
  by (auto simp add: answer_step_def with_payload_def falsy_simps Let_def split: if_splits option.splits sum.splits)

lemma not_again_num_households:
  assumes "answer_step ''num_households'' a payload context = Inr (r, payload', context', None)"
  shows "determine_next_question payload' context' \<noteq> Inr ''num_households''"
  using assms next_question_needs [of payload' context' "''num_households''"]
  by (auto simp add: answer_step_def with_payload_def falsy_simps Let_def split: if_splits option.splits sum.splits)

lemma not_again_addon_pre_ex:
  assumes "answer_step ''addon_pre_ex'' a payload context = Inr (r, payload', context', None)"
  shows "determine_next_question payload' context' \<noteq> Inr ''addon_pre_ex''"
  using assms next_question_needs [of payload' context' "''addon_pre_ex''"]
  by (auto simp add: answer_step_def with_payload_def falsy_simps Let_def set_addon_def split: if_splits option.splits)

lemma not_again_addon_ffm:
  assumes "answer_step ''addon_ffm'' a payload context = Inr (r, payload', context', None)"
  shows "determine_next_question payload' context' \<noteq> Inr ''addon_ffm''"
  using assms next_question_needs [of payload' context' "''addon_ffm''"]
  by (auto simp add: answer_step_def with_payload_def falsy_simps Let_def set_addon_def split: if_splits option.splits)

lemma not_again_addon_flight_delay:
  assumes "answer_step ''addon_flight_delay'' a payload context = Inr (r, payload', context', None)"
  shows "determine_next_question payload' context' \<noteq> Inr ''addon_flight_delay''"
  using assms next_question_needs [of payload' context' "''addon_flight_delay''"]
  by (auto simp add: answer_step_def with_payload_def falsy_simps Let_def set_addon_def split: if_splits option.splits)

lemma not_again_coupon_code:
  assumes "answer_step ''coupon_code'' a payload context = Inr (r, payload', context', None)"
  shows "determine_next_question payload' context' \<noteq> Inr ''coupon_code''"
  using assms next_question_needs [of payload' context' "''coupon_code''"]
  by (auto simp add: answer_step_def with_payload_def falsy_simps Let_def split: if_splits option.splits)

lemma not_again_email:
  assumes "answer_step ''email'' a payload context = Inr (r, payload', context', None)"
    and "a \<noteq> []"
  shows "determine_next_question payload' context' \<noteq> Inr ''email''"
  using assms next_question_needs [of payload' context' "''email''"]
  by (auto simp add: answer_step_def with_payload_def falsy_simps Let_def falsy_def split: if_splits option.splits)

lemma not_again_contact_mobile:
  assumes "answer_step ''contact_mobile'' a payload context = Inr (r, payload', context', None)"
    and "a \<noteq> []"
  shows "determine_next_question payload' context' \<noteq> Inr ''contact_mobile''"
  using assms next_question_needs [of payload' context' "''contact_mobile''"]
  by (auto simp add: answer_step_def with_payload_def falsy_simps Let_def falsy_def split: if_splits option.splits)

lemma not_again_destination:
  assumes "answer_step ''destination'' a payload context = Inr (r, payload', context', None)"
  shows "determine_next_question payload' context' \<noteq> Inr ''destination''"
proof -
  let ?toks = "map (\<lambda>c. lower (strip c)) (split_on (CHR '','') a)"
  have len: "length (fst (lookup_countries ?toks [] [])) + length (snd (lookup_countries ?toks [] [])) =
             length ?toks"
    using lookup_countries_length [of ?toks "[]" "[]"] by simp
  have ne: "?toks \<noteq> []" using split_on_nonempty by simp
  have "\<exists>p. payload' = Some p \<and> \<not> falsy_list (country_code (travel p))"
    using assms len ne
    by (auto simp add: answer_step_def with_payload_def falsy_list_def Let_def
        split: if_splits option.splits prod.splits)
  then show ?thesis
    using next_question_needs [of payload' context' "''destination''"] by auto
qed


lemma travel_not_again:
  assumes q: "q \<in> set travel_labels" "q \<noteq> ''household_info''"
    and step: "answer_step q a payload context = Inr (r, payload', context', None)"
    and a: "a \<noteq> []"
  shows "determine_next_question payload' context' \<noteq> Inr q"
proof -
  from q have cases: "q = ''policy_type'' \<or> q = ''group_type_single'' \<or> q = ''group_type_annual'' \<or>
      q = ''zone'' \<or> q = ''num_adults'' \<or> q = ''num_children'' \<or> q = ''num_adults_group'' \<or>
      q = ''num_households'' \<or> q = ''destination'' \<or> q = ''start_date'' \<or> q = ''end_date'' \<or>
      q = ''addon_pre_ex'' \<or> q = ''addon_ffm'' \<or> q = ''addon_flight_delay'' \<or>
      q = ''coupon_code'' \<or> q = ''email'' \<or> q = ''contact_mobile''"
    by (simp add: travel_labels_def QUESTION_MAP_def)
  note l = not_again_policy_type [of payload' context']
    not_again_group_type_single [of a payload "context" r payload' context']
    not_again_group_type_annual [of a payload "context" r payload' context']
    not_again_zone [of a payload "context" r payload' context']
    not_again_num_adults [of a payload "context" r payload' context']
    not_again_num_children [of a payload "context" r payload' context']
    not_again_num_adults_group [of a payload "context" r payload' context']
    not_again_num_households [of a payload "context" r payload' context']
    not_again_destination [of a payload "context" r payload' context']
    not_again_start_date [of a payload "context" r payload' context', OF _ a]
    not_again_end_date [of a payload "context" r payload' context', OF _ a]
    not_again_addon_pre_ex [of a payload "context" r payload' context']
    not_again_addon_ffm [of a payload "context" r payload' context']
    not_again_addon_flight_delay [of a payload "context" r payload' context']
    not_again_coupon_code [of a payload "context" r payload' context']
    not_again_email [of a payload "context" r payload' context', OF _ a]
    not_again_contact_mobile [of a payload "context" r payload' context', OF _ a]
  from cases step l show ?thesis by blast
qed

lemma household_progress:
  assumes "answer_step ''household_info'' a payload context = Inr (r, payload', context', v)"
  shows "payload' = payload \<and>
         or0 (households_collected context') = or0 (households_collected context) + 1 \<and>
         households_to_collect context' = households_to_collect context"
  using assms
  by (auto simp add: answer_step_def or0_def split: sum.splits option.splits)

lemma family_not_again:
  assumes q: "q \<in> set family_labels"
    and k: "current_question_key context = Some q"
    and step: "process_user_answer_family m payload context = Inr (payload', context', None)"
  shows "determine_next_question_family payload' \<noteq> Inr q"
proof -
  from q have cases: "q = ''premiumType'' \<or> q = ''insured_party'' \<or> q = ''policyInceptionDate'' \<or>
      q = ''email'' \<or> q = ''contact_mobile'' \<or> q = ''promoCode''"
    by (simp add: family_labels_def QUESTION_MAP_family_def)
  then show ?thesis
  proof (elim disjE)
    assume "q = ''premiumType''"
    with k step show ?thesis
      by (auto simp add: process_user_answer_family_def with_family_def
          determine_next_question_family_def Let_def split: option.splits if_splits)
  next
    assume "q = ''insured_party''"
    with k step show ?thesis
      by (auto simp add: process_user_answer_family_def with_internal_def internal_get_def
          determine_next_question_family_def Let_def split: option.splits if_splits)
  next
    assume "q = ''policyInceptionDate''"
    with k step show ?thesis
      by (auto simp add: process_user_answer_family_def with_family_def
          determine_next_question_family_def Let_def split: option.splits if_splits sum.splits)
  next
    assume "q = ''email''"
    with k step show ?thesis
      by (auto simp add: process_user_answer_family_def with_internal_def internal_get_def
          determine_next_question_family_def Let_def split: option.splits if_splits)
  next
    assume "q = ''contact_mobile''"
    with k step show ?thesis
      by (auto simp add: process_user_answer_family_def with_internal_def internal_get_def
          determine_next_question_family_def Let_def split: option.splits if_splits)
  next
    assume "q = ''promoCode''"
    with k step show ?thesis
      by (auto simp add: process_user_answer_family_def with_family_def
          determine_next_question_family_def Let_def split: option.splits if_splits)
  qed
qed

lemma process_user_answer_step:
  assumes "current_question_key context = Some q"
    and "process_user_answer now sid user_message payload context st = Inr ((payload', context', v), st')"
  shows "\<exists>r. answer_step q (strip user_message) payload context = Inr (r, payload', context', v)"
  using assms by (auto simp add: process_user_answer_def split: sum.splits)

subsection \<open>The number of answers that a collection takes\<close>

lemma next_question_branch:
  assumes "determine_next_question (Some p) c = Inr k"
  shows "(k = ''group_type_annual'' \<longrightarrow> falsy (group_type_choice c) \<and> policy_type_choice c = Some ''annual'') \<and>
         (k = ''group_type_single'' \<longrightarrow> falsy (group_type_choice c) \<and> policy_type_choice c \<noteq> Some ''annual'') \<and>
         (k = ''zone'' \<longrightarrow> policy_type_choice c = Some ''annual'') \<and>
         (k = ''num_adults'' \<or> k = ''num_children'' \<longrightarrow> group_type_choice c = Some ''family'') \<and>
         (k = ''num_adults_group'' \<longrightarrow>
            policy_type_choice c \<noteq> Some ''annual'' \<and> group_type_choice c = Some ''group_adults'') \<and>
         (k = ''num_households'' \<or> k = ''household_info'' \<longrightarrow>
            policy_type_choice c \<noteq> Some ''annual'' \<and> group_type_choice c = Some ''group_family'') \<and>
         (k = ''household_info'' \<longrightarrow> num_households c \<noteq> None) \<and>
         (k = ''destination'' \<or> k = ''start_date'' \<or> k = ''end_date'' \<or> k = ''addon_ffm'' \<or>
          k = ''addon_flight_delay'' \<longrightarrow> policy_type_choice c \<noteq> Some ''annual'') \<and>
         (k \<noteq> ''group_type_annual'' \<and> k \<noteq> ''group_type_single'' \<longrightarrow> \<not> falsy (group_type_choice c)) \<and>
         k \<noteq> []"
proof -
  consider (fam) "group_type_choice c = Some ''family''"
    | (ga) "group_type_choice c = Some ''group_adults''"
    | (gf) "group_type_choice c = Some ''group_family''"
    | (other) "group_type_choice c \<noteq> Some ''family''" "group_type_choice c \<noteq> Some ''group_adults''"
        "group_type_choice c \<noteq> Some ''group_family''"
    by blast
  then show ?thesis
  proof cases
    case fam
    with assms show ?thesis
      by (auto simp add: determine_next_question_def tail_questions_def falsy_simps Let_def split: if_splits)
  next
    case ga
    with assms show ?thesis
      by (auto simp add: determine_next_question_def tail_questions_def falsy_simps Let_def split: if_splits)
  next
    case gf
    with assms show ?thesis
      by (auto simp add: determine_next_question_def tail_questions_def falsy_simps Let_def split: if_splits)
  next
    case other
    with assms show ?thesis
      by (auto simp add: determine_next_question_def tail_questions_def falsy_simps Let_def split: if_splits)
  qed
qed

lemma resolver_done_iff:
  "determine_next_question (Some p) c = Inr ''DONE'' \<longleftrightarrow> questions_left p c = 0"
proof -
  consider (fam) "group_type_choice c = Some ''family''"
    | (ga) "group_type_choice c = Some ''group_adults''"
    | (gf) "group_type_choice c = Some ''group_family''"
    | (other) "group_type_choice c \<noteq> Some ''family''" "group_type_choice c \<noteq> Some ''group_adults''"
        "group_type_choice c \<noteq> Some ''group_family''"
    by blast
  then show ?thesis
  proof cases
    case fam
    then show ?thesis
      by (simp add: determine_next_question_def tail_questions_def questions_left_def falsy_simps Let_def)
  next
    case ga
    then show ?thesis
      by (simp add: determine_next_question_def tail_questions_def questions_left_def falsy_simps Let_def)
  next
    case gf
    then show ?thesis
      by (simp add: determine_next_question_def tail_questions_def questions_left_def falsy_simps Let_def)
  next
    case other
    then show ?thesis
      by (simp add: determine_next_question_def tail_questions_def questions_left_def falsy_simps Let_def)
  qed
qed

lemma questions_left_bound:
  "questions_left p c \<le> 11 + nat (or0 (households_to_collect c) - or0 (households_collected c))"
proof -
  have three: "of_bool P1 + of_bool P2 + of_bool P3 \<le> (3::nat)" for P1 P2 P3
    by simp
  have six: "of_bool P1 + of_bool P2 + of_bool P3 + of_bool P4 + of_bool P5 + of_bool P6 \<le> (6::nat)"
    for P1 P2 P3 P4 P5 P6
    by simp
  let ?g = "group_type_choice c"
  have g: "of_bool (falsy ?g) + of_bool (?g = Some ''family'' \<and> A) + of_bool (?g = Some ''family'' \<and> B) +
           of_bool (?g = Some ''group_adults'' \<and> C) + of_bool (?g = Some ''group_family'' \<and> D) \<le> (2::nat)"
    for A B C D
    by (auto simp add: falsy_def)
  have z: "of_bool Z \<le> (1::nat)" for Z by simp
  have h: "(if ?g = Some ''group_family''
            then nat (or0 (households_to_collect c) - or0 (households_collected c)) else 0)
           \<le> nat (or0 (households_to_collect c) - or0 (households_collected c))"
    by simp
  show ?thesis
  proof (cases "policy_type_choice c = Some ''annual''")
    case True
    then have "questions_left p c =
        of_bool (falsy ?g) +
        (of_bool (falsy (zone (travel p))) +
         of_bool (?g = Some ''family'' \<and> num_adults c = None) +
         of_bool (?g = Some ''family'' \<and> num_children c = None) +
         of_bool (preExAddOn (selectedAddOns (travel p)) = None)) +
        of_bool (coupon_code (promotion p) = None) +
        of_bool (falsy (email (leads p))) +
        of_bool (falsy (contact_mobile (leads p)))"
      by (simp only: questions_left_def Let_def if_True simp_thms)
    then show ?thesis
      using three [of "coupon_code (promotion p) = None" "falsy (email (leads p))"
                      "falsy (contact_mobile (leads p))"]
        g [of "num_adults c = None" "num_children c = None" False False]
        z [of "falsy (zone (travel p))"] z [of "preExAddOn (selectedAddOns (travel p)) = None"]
      by linarith
  next
    case False
    then have "questions_left p c =
        of_bool (falsy ?g) +
        (of_bool (?g = Some ''family'' \<and> num_adults c = None) +
         of_bool (?g = Some ''family'' \<and> num_children c = None) +
         of_bool (?g = Some ''group_adults'' \<and> num_adults_group c = None) +
         of_bool (?g = Some ''group_family'' \<and> num_households c = None) +
         (if ?g = Some ''group_family''
          then nat (or0 (households_to_collect c) - or0 (households_collected c)) else 0) +
         of_bool (falsy_list (country_code (travel p))) +
         of_bool (falsy (start_date c)) +
         of_bool (falsy (end_date c)) +
         of_bool (preExAddOn (selectedAddOns (travel p)) = None) +
         of_bool (lossFFMAddOn (selectedAddOns (travel p)) = None) +
         of_bool (flightDelayAddOn (selectedAddOns (travel p)) = None)) +
        of_bool (coupon_code (promotion p) = None) +
        of_bool (falsy (email (leads p))) +
        of_bool (falsy (contact_mobile (leads p)))"
      by (simp only: questions_left_def Let_def if_False simp_thms)
    then show ?thesis
      using three [of "coupon_code (promotion p) = None" "falsy (email (leads p))"
                      "falsy (contact_mobile (leads p))"]
        g [of "num_adults c = None" "num_children c = None" "num_adults_group c = None"
              "num_households c = None"]
        six [of "falsy_list (country_code (travel p))" "falsy (start_date c)" "falsy (end_date c)"
                "preExAddOn (selectedAddOns (travel p)) = None"
                "lossFFMAddOn (selectedAddOns (travel p)) = None"
                "flightDelayAddOn (selectedAddOns (travel p)) = None"] h
      by linarith
  qed
qed

lemma branch_left_bound: "branch_left c \<le> 2"
  by (simp add: branch_left_def)

lemma merge_context_iff:
  "merge_context c' c = c' \<longleftrightarrow>
     keep (last_intent c') (last_intent c) = last_intent c' \<and>
     keep (current_question_key c') (current_question_key c) = current_question_key c' \<and>
     keep (policy_type_choice c') (policy_type_choice c) = policy_type_choice c' \<and>
     keep (group_type_choice c') (group_type_choice c) = group_type_choice c' \<and>
     keep (start_date c') (start_date c) = start_date c' \<and>
     keep (end_date c') (end_date c) = end_date c' \<and>
     keep (num_adults c') (num_adults c) = num_adults c' \<and>
     keep (num_children c') (num_children c) = num_children c' \<and>
     keep (num_adults_group c') (num_adults_group c) = num_adults_group c' \<and>
     keep (num_households c') (num_households c) = num_households c' \<and>
     keep (households_to_collect c') (households_to_collect c) = households_to_collect c' \<and>
     keep (households_collected c') (households_collected c) = households_collected c' \<and>
     keep (households_data c') (households_data c) = households_data c'"
  by (cases c') (simp add: merge_context_def)

lemma keep_simps: "keep x x = x" "keep (Some v) y = Some v"
  by (simp_all add: keep_def split: option.splits)

lemma step_zone:
  assumes res: "determine_next_question (Some p) c = Inr ''zone''"
    and step: "answer_step ''zone'' a (Some p) c = Inr (r, payload', c', None)"
  shows "\<exists>p'. payload' = Some p' \<and> \<not> r \<and> merge_context c' c = c' \<and>
           current_question_key c' = current_question_key c \<and>
           branch_left c' = branch_left c \<and> questions_left p' c' + 1 = questions_left p c"
proof -
  from next_question_conditions [OF res] next_question_branch [OF res]
  have f: "falsy (zone (travel p))" "policy_type_choice c = Some ''annual''" by simp_all
  from step obtain z where z: "z \<noteq> []" "payload' = Some (p\<lparr>travel := (travel p)\<lparr>zone := Some z\<rparr>\<rparr>)"
    "c' = c" "\<not> r"
    by (auto simp add: answer_step_def with_payload_def split: if_splits)
  with f show ?thesis
    by (simp add: questions_left_def Let_def merge_context_iff keep_simps falsy_def
          split del: split_of_bool)
qed

lemma step_num_adults:
  assumes res: "determine_next_question (Some p) c = Inr ''num_adults''"
    and step: "answer_step ''num_adults'' a (Some p) c = Inr (r, payload', c', None)"
  shows "\<exists>p'. payload' = Some p' \<and> \<not> r \<and> merge_context c' c = c' \<and>
           current_question_key c' = current_question_key c \<and>
           branch_left c' = branch_left c \<and> questions_left p' c' + 1 = questions_left p c"
proof -
  from next_question_conditions [OF res] next_question_branch [OF res]
  have f: "num_adults c = None" "group_type_choice c = Some ''family''" by simp_all
  from step obtain n where z: "payload' = Some p" "c' = c\<lparr>num_adults := Some n\<rparr>" "\<not> r"
    by (auto simp add: answer_step_def split: sum.splits)
  with f show ?thesis
    by (simp add: questions_left_def branch_left_def Let_def merge_context_iff keep_simps
          split del: split_of_bool)
qed

lemma step_household_info:
  assumes res: "determine_next_question (Some p) c = Inr ''household_info''"
    and step: "answer_step ''household_info'' a (Some p) c = Inr (r, payload', c', None)"
  shows "\<exists>p'. payload' = Some p' \<and> \<not> r \<and> merge_context c' c = c' \<and>
           current_question_key c' = current_question_key c \<and>
           branch_left c' = branch_left c \<and> questions_left p' c' + 1 = questions_left p c"
proof -
  from next_question_conditions [OF res] next_question_branch [OF res]
  have f: "or0 (households_collected c) < or0 (households_to_collect c)"
    "group_type_choice c = Some ''group_family''" "policy_type_choice c \<noteq> Some ''annual''"
    by simp_all
  from step obtain hs h where z: "payload' = Some p"
    "c' = c\<lparr>households_data := Some (hs @ [h]),
            households_collected := Some (or0 (households_collected c) + 1)\<rparr>" "\<not> r"
    by (auto simp add: answer_step_def or0_def split: sum.splits option.splits)
  have "nat (or0 (households_to_collect c) - (or0 (households_collected c) + 1)) + 1 =
        nat (or0 (households_to_collect c) - or0 (households_collected c))"
    using f(1) by simp
  with f z show ?thesis
    by (simp add: questions_left_def branch_left_def Let_def merge_context_iff keep_simps
          or0_def [of "Some x" for x] split del: split_of_bool)
qed

lemma step_num_children:
  assumes res: "determine_next_question (Some p) c = Inr ''num_children''"
    and step: "answer_step ''num_children'' a (Some p) c = Inr (r, payload', c', None)"
  shows "\<exists>p'. payload' = Some p' \<and> \<not> r \<and> merge_context c' c = c' \<and>
           current_question_key c' = current_question_key c \<and>
           branch_left c' = branch_left c \<and> questions_left p' c' + 1 = questions_left p c"
proof -
  from next_question_conditions [OF res] next_question_branch [OF res]
  have f: "num_children c = None" "group_type_choice c = Some ''family''" by simp_all
  from step obtain n where z: "payload' = Some p" "c' = c\<lparr>num_children := Some n\<rparr>" "\<not> r"
    by (auto simp add: answer_step_def Let_def split: sum.splits if_splits)
  with f show ?thesis
    by (simp add: questions_left_def branch_left_def Let_def merge_context_iff keep_simps falsy_def
          falsy_list_def split del: split_of_bool)
qed

lemma step_num_adults_group:
  assumes res: "determine_next_question (Some p) c = Inr ''num_adults_group''"
    and step: "answer_step ''num_adults_group'' a (Some p) c = Inr (r, payload', c', None)"
  shows "\<exists>p'. payload' = Some p' \<and> \<not> r \<and> merge_context c' c = c' \<and>
           current_question_key c' = current_question_key c \<and>
           branch_left c' = branch_left c \<and> questions_left p' c' + 1 = questions_left p c"
proof -
  from next_question_conditions [OF res] next_question_branch [OF res]
  have f: "num_adults_group c = None" "group_type_choice c = Some ''group_adults''"
    "policy_type_choice c \<noteq> Some ''annual''" by simp_all
  from step obtain n where z: "payload' = Some p" "c' = c\<lparr>num_adults_group := Some n\<rparr>" "\<not> r"
    by (auto simp add: answer_step_def split: sum.splits)
  with f show ?thesis
    by (simp add: questions_left_def branch_left_def Let_def merge_context_iff keep_simps falsy_def
          falsy_list_def split del: split_of_bool)
qed

lemma step_start_date:
  assumes res: "determine_next_question (Some p) c = Inr ''start_date''"
    and step: "answer_step ''start_date'' a (Some p) c = Inr (r, payload', c', None)"
    and a: "a \<noteq> []"
  shows "\<exists>p'. payload' = Some p' \<and> \<not> r \<and> merge_context c' c = c' \<and>
           current_question_key c' = current_question_key c \<and>
           branch_left c' = branch_left c \<and> questions_left p' c' + 1 = questions_left p c"
proof -
  from next_question_conditions [OF res] next_question_branch [OF res]
  have f: "falsy (start_date c)" "policy_type_choice c \<noteq> Some ''annual''" by simp_all
  from step have z: "payload' = Some p" "c' = c\<lparr>start_date := Some (replace ''/'' ''-'' a)\<rparr>" "\<not> r"
    by (auto simp add: answer_step_def)
  with f replace_nonempty [OF a] show ?thesis
    by (simp add: questions_left_def branch_left_def Let_def merge_context_iff keep_simps falsy_def
          falsy_list_def split del: split_of_bool)
qed

lemma step_end_date:
  assumes res: "determine_next_question (Some p) c = Inr ''end_date''"
    and step: "answer_step ''end_date'' a (Some p) c = Inr (r, payload', c', None)"
    and a: "a \<noteq> []"
  shows "\<exists>p'. payload' = Some p' \<and> \<not> r \<and> merge_context c' c = c' \<and>
           current_question_key c' = current_question_key c \<and>
           branch_left c' = branch_left c \<and> questions_left p' c' + 1 = questions_left p c"
proof -
  from next_question_conditions [OF res] next_question_branch [OF res]
  have f: "falsy (end_date c)" "policy_type_choice c \<noteq> Some ''annual''" by simp_all
  from step have z: "payload' = Some p" "c' = c\<lparr>end_date := Some (replace ''/'' ''-'' a)\<rparr>" "\<not> r"
    by (auto simp add: answer_step_def)
  with f replace_nonempty [OF a] show ?thesis
    by (simp add: questions_left_def branch_left_def Let_def merge_context_iff keep_simps falsy_def
          falsy_list_def split del: split_of_bool)
qed

lemma step_addon_pre_ex:
  assumes res: "determine_next_question (Some p) c = Inr ''addon_pre_ex''"
    and step: "answer_step ''addon_pre_ex'' a (Some p) c = Inr (r, payload', c', None)"
  shows "\<exists>p'. payload' = Some p' \<and> \<not> r \<and> merge_context c' c = c' \<and>
           current_question_key c' = current_question_key c \<and>
           branch_left c' = branch_left c \<and> questions_left p' c' + 1 = questions_left p c"
proof -
  from next_question_conditions [OF res] next_question_branch [OF res]
  have f: "preExAddOn (selectedAddOns (travel p)) = None" by simp_all
  from step obtain b where z:
    "payload' = Some (p\<lparr>travel := (travel p)\<lparr>selectedAddOns := (selectedAddOns (travel p))\<lparr>preExAddOn := Some b\<rparr>\<rparr>\<rparr>)"
    "c' = c" "\<not> r"
    by (auto simp add: answer_step_def with_payload_def set_addon_def)
  with f show ?thesis
    by (simp add: questions_left_def branch_left_def Let_def merge_context_iff keep_simps falsy_def
          falsy_list_def split del: split_of_bool)
qed

lemma step_addon_ffm:
  assumes res: "determine_next_question (Some p) c = Inr ''addon_ffm''"
    and step: "answer_step ''addon_ffm'' a (Some p) c = Inr (r, payload', c', None)"
  shows "\<exists>p'. payload' = Some p' \<and> \<not> r \<and> merge_context c' c = c' \<and>
           current_question_key c' = current_question_key c \<and>
           branch_left c' = branch_left c \<and> questions_left p' c' + 1 = questions_left p c"
proof -
  from next_question_conditions [OF res] next_question_branch [OF res]
  have f: "lossFFMAddOn (selectedAddOns (travel p)) = None" "policy_type_choice c \<noteq> Some ''annual''" by simp_all
  from step obtain b where z:
    "payload' = Some (p\<lparr>travel := (travel p)\<lparr>selectedAddOns := (selectedAddOns (travel p))\<lparr>lossFFMAddOn := Some b\<rparr>\<rparr>\<rparr>)"
    "c' = c" "\<not> r"
    by (auto simp add: answer_step_def with_payload_def set_addon_def)
  with f show ?thesis
    by (simp add: questions_left_def branch_left_def Let_def merge_context_iff keep_simps falsy_def
          falsy_list_def split del: split_of_bool)
qed

lemma step_addon_flight_delay:
  assumes res: "determine_next_question (Some p) c = Inr ''addon_flight_delay''"
    and step: "answer_step ''addon_flight_delay'' a (Some p) c = Inr (r, payload', c', None)"
  shows "\<exists>p'. payload' = Some p' \<and> \<not> r \<and> merge_context c' c = c' \<and>
           current_question_key c' = current_question_key c \<and>
           branch_left c' = branch_left c \<and> questions_left p' c' + 1 = questions_left p c"
proof -
  from next_question_conditions [OF res] next_question_branch [OF res]
  have f: "flightDelayAddOn (selectedAddOns (travel p)) = None" "policy_type_choice c \<noteq> Some ''annual''" by simp_all
  from step obtain b where z:
    "payload' = Some (p\<lparr>travel := (travel p)\<lparr>selectedAddOns := (selectedAddOns (travel p))\<lparr>flightDelayAddOn := Some b\<rparr>\<rparr>\<rparr>)"
    "c' = c" "\<not> r"
    by (auto simp add: answer_step_def with_payload_def set_addon_def)
  with f show ?thesis
    by (simp add: questions_left_def branch_left_def Let_def merge_context_iff keep_simps falsy_def
          falsy_list_def split del: split_of_bool)
qed

lemma step_coupon_code:
  assumes res: "determine_next_question (Some p) c = Inr ''coupon_code''"
    and step: "answer_step ''coupon_code'' a (Some p) c = Inr (r, payload', c', None)"
  shows "\<exists>p'. payload' = Some p' \<and> \<not> r \<and> merge_context c' c = c' \<and>
           current_question_key c' = current_question_key c \<and>
           branch_left c' = branch_left c \<and> questions_left p' c' + 1 = questions_left p c"
proof -
  from next_question_conditions [OF res]
  have f: "coupon_code (promotion p) = None" by simp_all
  from step obtain v where z:
    "payload' = Some (p\<lparr>promotion := (promotion p)\<lparr>coupon_code := Some v\<rparr>\<rparr>)" "c' = c" "\<not> r"
    by (auto simp add: answer_step_def with_payload_def)
  with f show ?thesis
    by (simp add: questions_left_def branch_left_def Let_def merge_context_iff keep_simps falsy_def
          falsy_list_def split del: split_of_bool)
qed

lemma step_email:
  assumes res: "determine_next_question (Some p) c = Inr ''email''"
    and step: "answer_step ''email'' a (Some p) c = Inr (r, payload', c', None)"
    and a: "a \<noteq> []"
  shows "\<exists>p'. payload' = Some p' \<and> \<not> r \<and> merge_context c' c = c' \<and>
           current_question_key c' = current_question_key c \<and>
           branch_left c' = branch_left c \<and> questions_left p' c' + 1 = questions_left p c"
proof -
  from next_question_conditions [OF res]
  have f: "falsy (email (leads p))" by simp_all
  from step have z:
    "payload' = Some (p\<lparr>leads := (leads p)\<lparr>email := Some a\<rparr>\<rparr>)" "c' = c" "\<not> r"
    by (auto simp add: answer_step_def with_payload_def)
  with f a show ?thesis
    by (simp add: questions_left_def branch_left_def Let_def merge_context_iff keep_simps falsy_def
          falsy_list_def split del: split_of_bool)
qed

lemma step_contact_mobile:
  assumes res: "determine_next_question (Some p) c = Inr ''contact_mobile''"
    and step: "answer_step ''contact_mobile'' a (Some p) c = Inr (r, payload', c', None)"
    and a: "a \<noteq> []"
  shows "\<exists>p'. payload' = Some p' \<and> \<not> r \<and> merge_context c' c = c' \<and>
           current_question_key c' = current_question_key c \<and>
           branch_left c' = branch_left c \<and> questions_left p' c' + 1 = questions_left p c"
proof -
  from next_question_conditions [OF res]
  have f: "falsy (contact_mobile (leads p))" by simp_all
  from step have z:
    "payload' = Some (p\<lparr>leads := (leads p)\<lparr>contact_mobile := Some a\<rparr>\<rparr>)" "c' = c" "\<not> r"
    by (auto simp add: answer_step_def with_payload_def)
  with f a show ?thesis
    by (simp add: questions_left_def branch_left_def Let_def merge_context_iff keep_simps falsy_def
          falsy_list_def split del: split_of_bool)
qed

lemma step_destination:
  assumes res: "determine_next_question (Some p) c = Inr ''destination''"
    and step: "answer_step ''destination'' a (Some p) c = Inr (r, payload', c', None)"
  shows "\<exists>p'. payload' = Some p' \<and> \<not> r \<and> merge_context c' c = c' \<and>
           current_question_key c' = current_question_key c \<and>
           branch_left c' = branch_left c \<and> questions_left p' c' + 1 = questions_left p c"
proof -
  from next_question_conditions [OF res] next_question_branch [OF res]
  have f: "falsy_list (country_code (travel p))" "policy_type_choice c \<noteq> Some ''annual''" by simp_all
  let ?toks = "map (\<lambda>c. lower (strip c)) (split_on (CHR '','') a)"
  have len: "length (fst (lookup_countries ?toks [] [])) + length (snd (lookup_countries ?toks [] [])) =
             length ?toks"
    using lookup_countries_length [of ?toks "[]" "[]"] by simp
  have ne: "?toks \<noteq> []" using split_on_nonempty by simp
  let ?codes = "fst (lookup_countries ?toks [] [])"
  from step len ne have z: "?codes \<noteq> []"
      "payload' = Some (p\<lparr>travel := (travel p)\<lparr>country_code := Some ?codes\<rparr>\<rparr>)" "c' = c" "\<not> r"
    by (auto simp add: answer_step_def with_payload_def Let_def split: if_splits prod.splits)
  with f show ?thesis
    by (simp add: questions_left_def branch_left_def Let_def merge_context_iff keep_simps falsy_def
          falsy_list_def split del: split_of_bool)
qed

lemma step_group_type_single:
  assumes res: "determine_next_question (Some p) c = Inr ''group_type_single''"
    and step: "answer_step ''group_type_single'' a (Some p) c = Inr (r, payload', c', None)"
  shows "\<exists>p'. payload' = Some p' \<and> \<not> r \<and> merge_context c' c = c' \<and>
           current_question_key c' = current_question_key c \<and> branch_left c' < branch_left c"
proof -
  from next_question_branch [OF res]
  have f: "falsy (group_type_choice c)" "policy_type_choice c \<noteq> Some ''annual''" by simp_all
  from step obtain g where z: "g \<noteq> []" "payload' = Some p" "c' = c\<lparr>group_type_choice := Some g\<rparr>" "\<not> r"
    by (auto simp add: answer_step_def Let_def split: if_splits)
  with f show ?thesis
    by (auto simp add: branch_left_def merge_context_iff keep_simps falsy_def)
qed

lemma step_group_type_annual:
  assumes res: "determine_next_question (Some p) c = Inr ''group_type_annual''"
    and step: "answer_step ''group_type_annual'' a (Some p) c = Inr (r, payload', c', None)"
  shows "\<exists>p'. payload' = Some p' \<and> \<not> r \<and> merge_context c' c = c' \<and>
           current_question_key c' = current_question_key c \<and> branch_left c' < branch_left c"
proof -
  from next_question_branch [OF res]
  have f: "falsy (group_type_choice c)" "policy_type_choice c = Some ''annual''" by simp_all
  from step obtain g where z: "g \<noteq> []" "payload' = Some p" "c' = c\<lparr>group_type_choice := Some g\<rparr>" "\<not> r"
    by (auto simp add: answer_step_def Let_def split: if_splits)
  with f show ?thesis
    by (auto simp add: branch_left_def merge_context_iff keep_simps falsy_def)
qed

lemma step_num_households:
  assumes res: "determine_next_question (Some p) c = Inr ''num_households''"
    and step: "answer_step ''num_households'' a (Some p) c = Inr (r, payload', c', None)"
  shows "\<exists>p'. payload' = Some p' \<and> \<not> r \<and> merge_context c' c = c' \<and>
           current_question_key c' = current_question_key c \<and> branch_left c' < branch_left c"
proof -
  from next_question_conditions [OF res] next_question_branch [OF res]
  have f: "num_households c = None" "group_type_choice c = Some ''group_family''"
    "policy_type_choice c \<noteq> Some ''annual''" by simp_all
  from step obtain n where z: "payload' = Some p"
    "c' = c\<lparr>num_households := Some n, households_to_collect := Some n,
            households_collected := Some 0, households_data := Some []\<rparr>" "\<not> r"
    by (auto simp add: answer_step_def split: sum.splits)
  with f show ?thesis
    by (auto simp add: branch_left_def merge_context_iff keep_simps falsy_def)
qed

lemma resolver_labels:
  assumes "determine_next_question (Some p) c = Inr q"
  shows "q = ''DONE'' \<or> map_of QUESTION_MAP q \<noteq> None"
proof -
  consider (fam) "group_type_choice c = Some ''family''"
    | (ga) "group_type_choice c = Some ''group_adults''"
    | (gf) "group_type_choice c = Some ''group_family''"
    | (other) "group_type_choice c \<noteq> Some ''family''" "group_type_choice c \<noteq> Some ''group_adults''"
        "group_type_choice c \<noteq> Some ''group_family''"
    by blast
  then show ?thesis
  proof cases
    case fam
    with assms show ?thesis
      by (auto simp add: determine_next_question_def tail_questions_def falsy_simps Let_def
            QUESTION_MAP_def split: if_splits)
  next
    case ga
    with assms show ?thesis
      by (auto simp add: determine_next_question_def tail_questions_def falsy_simps Let_def
            QUESTION_MAP_def split: if_splits)
  next
    case gf
    with assms show ?thesis
      by (auto simp add: determine_next_question_def tail_questions_def falsy_simps Let_def
            QUESTION_MAP_def split: if_splits)
  next
    case other
    with assms show ?thesis
      by (auto simp add: determine_next_question_def tail_questions_def falsy_simps Let_def
            QUESTION_MAP_def split: if_splits)
  qed
qed

lemma resolver_total: "\<exists>q. determine_next_question (Some p) c = Inr q"
proof -
  consider (fam) "group_type_choice c = Some ''family''"
    | (ga) "group_type_choice c = Some ''group_adults''"
    | (gf) "group_type_choice c = Some ''group_family''"
    | (other) "group_type_choice c \<noteq> Some ''family''" "group_type_choice c \<noteq> Some ''group_adults''"
        "group_type_choice c \<noteq> Some ''group_family''"
    by blast
  then show ?thesis
  proof cases
    case fam
    then show ?thesis
      by (simp add: determine_next_question_def falsy_simps Let_def)
  next
    case ga
    then show ?thesis
      by (simp add: determine_next_question_def falsy_simps Let_def)
  next
    case gf
    then show ?thesis
      by (simp add: determine_next_question_def falsy_simps Let_def)
  next
    case other
    then show ?thesis
      by (simp add: determine_next_question_def falsy_simps Let_def)
  qed
qed

lemma resolver_branch:
  assumes "determine_next_question (Some p) c = Inr q"
  shows "branch_left c = 0 \<longleftrightarrow>
         q \<noteq> ''group_type_single'' \<and> q \<noteq> ''group_type_annual'' \<and> q \<noteq> ''num_households''"
proof -
  consider (fam) "group_type_choice c = Some ''family''"
    | (ga) "group_type_choice c = Some ''group_adults''"
    | (gf) "group_type_choice c = Some ''group_family''"
    | (other) "group_type_choice c \<noteq> Some ''family''" "group_type_choice c \<noteq> Some ''group_adults''"
        "group_type_choice c \<noteq> Some ''group_family''"
    by blast
  then show ?thesis
  proof cases
    case fam
    with assms show ?thesis
      by (auto simp add: determine_next_question_def tail_questions_def branch_left_def falsy_simps
            Let_def split: if_splits)
  next
    case ga
    with assms show ?thesis
      by (auto simp add: determine_next_question_def tail_questions_def branch_left_def falsy_simps
            Let_def split: if_splits)
  next
    case gf
    with assms show ?thesis
      by (auto simp add: determine_next_question_def tail_questions_def branch_left_def falsy_simps
            Let_def split: if_splits)
  next
    case other
    with assms show ?thesis
      by (auto simp add: determine_next_question_def tail_questions_def branch_left_def falsy_simps
            Let_def split: if_splits)
  qed
qed

lemma resolver_key:
  "determine_next_question payload (c\<lparr>current_question_key := k\<rparr>) = determine_next_question payload c"
  by (simp add: determine_next_question_def Let_def split del: if_split
        cong: if_cong option.case_cong)

lemma questions_left_key: "questions_left p (c\<lparr>current_question_key := k\<rparr>) = questions_left p c"
  by (simp add: questions_left_def Let_def split del: split_of_bool if_split cong: if_cong)

lemma branch_left_key: "branch_left (c\<lparr>current_question_key := k\<rparr>) = branch_left c"
  by (simp add: branch_left_def split del: split_of_bool)

lemma travel_progress:
  assumes res: "determine_next_question (Some p) c = Inr q" and q: "q \<noteq> ''DONE''"
    and step: "answer_step q a (Some p) c = Inr (r, payload', c', None)" and a: "a \<noteq> []"
  shows "\<exists>p'. payload' = Some p' \<and> \<not> r \<and> merge_context c' c = c' \<and>
           current_question_key c' = current_question_key c \<and>
           (if branch_left c = 0
            then branch_left c' = 0 \<and> questions_left p' c' + 1 = questions_left p c
            else branch_left c' < branch_left c)"
proof -
  from resolver_labels [OF res] q next_question_conditions [OF res]
  have cases: "q = ''group_type_single'' \<or> q = ''group_type_annual'' \<or>
      q = ''zone'' \<or> q = ''num_adults'' \<or> q = ''num_children'' \<or> q = ''num_adults_group'' \<or>
      q = ''num_households'' \<or> q = ''household_info'' \<or> q = ''destination'' \<or>
      q = ''start_date'' \<or> q = ''end_date'' \<or>
      q = ''addon_pre_ex'' \<or> q = ''addon_ffm'' \<or> q = ''addon_flight_delay'' \<or>
      q = ''coupon_code'' \<or> q = ''email'' \<or> q = ''contact_mobile''"
    by (auto simp add: QUESTION_MAP_def split: if_splits)
  note b = resolver_branch [OF res]
  note l = step_group_type_single [of p c a r payload' c']
    step_group_type_annual [of p c a r payload' c']
    step_zone [of p c a r payload' c']
    step_num_adults [of p c a r payload' c']
    step_num_children [of p c a r payload' c']
    step_num_adults_group [of p c a r payload' c']
    step_num_households [of p c a r payload' c']
    step_household_info [of p c a r payload' c']
    step_destination [of p c a r payload' c']
    step_start_date [of p c a r payload' c', OF _ _ a]
    step_end_date [of p c a r payload' c', OF _ _ a]
    step_addon_pre_ex [of p c a r payload' c']
    step_addon_ffm [of p c a r payload' c']
    step_addon_flight_delay [of p c a r payload' c']
    step_coupon_code [of p c a r payload' c']
    step_email [of p c a r payload' c', OF _ _ a]
    step_contact_mobile [of p c a r payload' c', OF _ _ a]
  from cases show ?thesis
  proof (elim disjE)
    assume e: "q = ''group_type_single''"
    with res step l(1) b show ?thesis by auto
  next
    assume e: "q = ''group_type_annual''"
    with res step l(2) b show ?thesis by auto
  next
    assume e: "q = ''zone''"
    with res step l(3) b show ?thesis by auto
  next
    assume e: "q = ''num_adults''"
    with res step l(4) b show ?thesis by auto
  next
    assume e: "q = ''num_children''"
    with res step l(5) b show ?thesis by auto
  next
    assume e: "q = ''num_adults_group''"
    with res step l(6) b show ?thesis by auto
  next
    assume e: "q = ''num_households''"
    with res step l(7) b show ?thesis by auto
  next
    assume e: "q = ''household_info''"
    with res step l(8) b show ?thesis by auto
  next
    assume e: "q = ''destination''"
    with res step l(9) b show ?thesis by auto
  next
    assume e: "q = ''start_date''"
    with res step l(10) b show ?thesis by auto
  next
    assume e: "q = ''end_date''"
    with res step l(11) b show ?thesis by auto
  next
    assume e: "q = ''addon_pre_ex''"
    with res step l(12) b show ?thesis by auto
  next
    assume e: "q = ''addon_ffm''"
    with res step l(13) b show ?thesis by auto
  next
    assume e: "q = ''addon_flight_delay''"
    with res step l(14) b show ?thesis by auto
  next
    assume e: "q = ''coupon_code''"
    with res step l(15) b show ?thesis by auto
  next
    assume e: "q = ''email''"
    with res step l(16) b show ?thesis by auto
  next
    assume e: "q = ''contact_mobile''"
    with res step l(17) b show ?thesis by auto
  qed
qed

lemma run_travel_accepted:
  assumes k: "current_question_key (conversation_context s) = Some q" "q \<noteq> []"
    and step: "answer_step q (strip m) (ci_payload (collected_info s)) (conversation_context s) =
                 Inr (False, payload', c', None)"
    and mg: "merge_context c' (conversation_context s) = c'"
    and res: "determine_next_question payload' c' = Inr q'" "q' \<noteq> ''DONE''"
    and qt: "map_of QUESTION_MAP q' \<noteq> None"
  shows "snd (run_travel_payload_agent now sid m (Some s)) =
           Some (s\<lparr>conversation_context := c'\<lparr>current_question_key := Some q'\<rparr>,
                   collected_info := (collected_info s)\<lparr>ci_payload := payload'\<rparr>,
                   last_active := now\<rparr>)"
  using assms
  by (auto simp add: run_travel_payload_agent_def get_session_def process_user_answer_def
        after_answer_def question_text_of_def update_conversation_context_def
        set_collected_info_payload_def set_current_question_key_def load_def Let_def falsy_def)

lemma run_travel_turn:
  assumes aw: "awaiting st" and acc: "accepted now sid m st"
  shows "(reaches_done now sid m st \<and> (branches_left st = 0 \<longrightarrow> fields_left st = 1)) \<or>
         (\<not> reaches_done now sid m st \<and>
          awaiting (snd (run_travel_payload_agent now sid m st)) \<and>
          (if branches_left st = 0
           then branches_left (snd (run_travel_payload_agent now sid m st)) = 0 \<and>
                fields_left (snd (run_travel_payload_agent now sid m st)) + 1 = fields_left st
           else branches_left (snd (run_travel_payload_agent now sid m st)) < branches_left st))"
proof -
  from aw obtain s p q where s: "st = Some s" "ci_payload (collected_info s) = Some p"
      "current_question_key (conversation_context s) = Some q" "q \<noteq> ''DONE''"
      "determine_next_question (Some p) (conversation_context s) = Inr q"
    by (auto simp add: awaiting_def split: option.splits)
  let ?c = "conversation_context s"
  from acc s have m: "strip m \<noteq> []"
    and "\<exists>payload' c' st2. process_user_answer now sid m (Some p) ?c (Some s) =
            Inr ((payload', c', None), st2)"
    by (auto simp add: accepted_def load_def Let_def split: sum.splits option.splits)
  then obtain payload' c' st2 where pua:
      "process_user_answer now sid m (Some p) ?c (Some s) = Inr ((payload', c', None), st2)"
    by blast
  from process_user_answer_step [OF s(3) pua] obtain r where
      step: "answer_step q (strip m) (Some p) ?c = Inr (r, payload', c', None)"
    by blast
  from travel_progress [OF s(5) s(4) step m] obtain p' where p':
      "payload' = Some p'" "\<not> r" "merge_context c' ?c = c'"
      "current_question_key c' = current_question_key ?c"
      "if branch_left ?c = 0
       then branch_left c' = 0 \<and> questions_left p' c' + 1 = questions_left p ?c
       else branch_left c' < branch_left ?c"
    by blast
  from resolver_total obtain q' where q': "determine_next_question (Some p') c' = Inr q'"
    by blast
  have rd: "reaches_done now sid m st \<longleftrightarrow> q' = ''DONE''"
    using s pua p' q' by (simp add: reaches_done_def load_def)
  have bl: "branches_left st = branch_left ?c" and fl: "fields_left st = questions_left p ?c"
    using s by (simp_all add: branches_left_def fields_left_def)
  show ?thesis
  proof (cases "q' = ''DONE''")
    case True
    with q' have "questions_left p' c' = 0" by (simp add: resolver_done_iff)
    with p'(5) have "branch_left ?c = 0 \<longrightarrow> questions_left p ?c = 1"
      by (auto split: if_splits)
    with True rd bl fl show ?thesis by simp
  next
    case False
    from next_question_branch [OF s(5)] have qne: "q \<noteq> []" by simp
    from resolver_labels [OF q'] False have qt: "map_of QUESTION_MAP q' \<noteq> None" by simp
    from step p' s have step': "answer_step q (strip m) (ci_payload (collected_info s)) ?c =
        Inr (False, payload', c', None)"
      by simp
    from q' p' have res': "determine_next_question payload' c' = Inr q'" by simp
    have st': "snd (run_travel_payload_agent now sid m st) =
        Some (s\<lparr>conversation_context := c'\<lparr>current_question_key := Some q'\<rparr>,
                collected_info := (collected_info s)\<lparr>ci_payload := payload'\<rparr>,
                last_active := now\<rparr>)"
      unfolding s(1)
      by (rule run_travel_accepted [OF s(3) qne step' p'(3) res' False qt])
    have aw': "awaiting (snd (run_travel_payload_agent now sid m st))"
      using q' False p'(1) by (simp add: st' awaiting_def resolver_key)
    have bl': "branches_left (snd (run_travel_payload_agent now sid m st)) = branch_left c'"
      by (simp add: st' branches_left_def branch_left_key)
    have fl': "fields_left (snd (run_travel_payload_agent now sid m st)) = questions_left p' c'"
      using p'(1) by (simp add: st' fields_left_def questions_left_key)
    from False rd aw' p'(5) show ?thesis
      unfolding bl bl' fl fl' by simp
  qed
qed

lemma awaiting_fields_left:
  assumes "awaiting st"
  shows "0 < fields_left st"
proof -
  from assms obtain s p q where s: "st = Some s" "ci_payload (collected_info s) = Some p"
      "q \<noteq> ''DONE''" "determine_next_question (Some p) (conversation_context s) = Inr q"
    by (auto simp add: awaiting_def split: option.splits)
  from s(3) s(4) have "questions_left p (conversation_context s) \<noteq> 0"
    using resolver_done_iff [of p "conversation_context s"] by auto
  with s show ?thesis by (simp add: fields_left_def)
qed

lemma travel_turns_count:
  assumes "awaiting st" "branches_left st = 0" "all_accepted sid ms st" "length ms < fields_left st"
  shows "awaiting (travel_turns sid ms st) \<and> branches_left (travel_turns sid ms st) = 0 \<and>
         fields_left (travel_turns sid ms st) + length ms = fields_left st"
  using assms
proof (induction ms arbitrary: st)
  case Nil
  then show ?case by simp
next
  case (Cons x ms)
  obtain now m where x: "x = (now, m)" by (cases x)
  let ?st = "snd (run_travel_payload_agent now sid m st)"
  from Cons.prems x have acc: "accepted now sid m st" and rest: "all_accepted sid ms ?st"
    and len: "length ms + 1 < fields_left st"
    by simp_all
  from run_travel_turn [OF Cons.prems(1) acc] Cons.prems(2) len
  have nx: "awaiting ?st" "branches_left ?st = 0" "fields_left ?st + 1 = fields_left st"
    by (auto split: if_splits)
  from nx(3) len have "length ms < fields_left ?st" by simp
  from Cons.IH [OF nx(1) nx(2) rest this] nx(3) x show ?case by simp
qed

lemma all_accepted_append:
  "all_accepted sid (ms @ ns) st \<longleftrightarrow>
     all_accepted sid ms st \<and> all_accepted sid ns (travel_turns sid ms st)"
  by (induction ms arbitrary: st) auto

lemma travel_done_after:
  assumes "awaiting st" "branches_left st = 0" "all_accepted sid (ms @ [(now, m)]) st"
    and "length ms + 1 = fields_left st"
  shows "reaches_done now sid m (travel_turns sid ms st)"
proof -
  from assms(3) have a: "all_accepted sid ms st" and b: "accepted now sid m (travel_turns sid ms st)"
    by (simp_all add: all_accepted_append)
  from assms(4) have "length ms < fields_left st" by simp
  from travel_turns_count [OF assms(1) assms(2) a this] assms(4)
  have c: "awaiting (travel_turns sid ms st)" "branches_left (travel_turns sid ms st) = 0"
    "fields_left (travel_turns sid ms st) = 1"
    by simp_all
  from run_travel_turn [OF c(1) b] c(2) c(3) awaiting_fields_left
  show ?thesis by (fastforce split: if_splits)
qed

lemma family_resolver_labels:
  assumes "determine_next_question_family (Some p) = Inr q"
  shows "q = ''premiumType'' \<or> q = ''insured_party'' \<or> q = ''policyInceptionDate'' \<or>
         q = ''email'' \<or> q = ''contact_mobile'' \<or> q = ''promoCode'' \<or> q = ''DONE''"
  using assms by (auto simp add: determine_next_question_family_def split: if_splits)

lemma family_resolver_total: "\<exists>q. determine_next_question_family (Some p) = Inr q"
  by (simp add: determine_next_question_family_def)

lemma family_resolver_done_iff:
  "determine_next_question_family (Some p) = Inr ''DONE'' \<longleftrightarrow> questions_left_family p = 0"
  by (simp add: determine_next_question_family_def questions_left_family_def)

lemma family_progress:
  assumes res: "determine_next_question_family (Some p) = Inr q" and q: "q \<noteq> ''DONE''"
    and k: "current_question_key c = Some q"
    and step: "process_user_answer_family m (Some p) c = Inr (payload', c', None)"
  shows "\<exists>p'. payload' = Some p' \<and> c' = c \<and>
           questions_left_family p' + 1 = questions_left_family p"
proof -
  from family_resolver_labels [OF res] q
  have cases: "q = ''premiumType'' \<or> q = ''insured_party'' \<or> q = ''policyInceptionDate'' \<or>
         q = ''email'' \<or> q = ''contact_mobile'' \<or> q = ''promoCode''"
    by simp
  then show ?thesis
  proof (elim disjE)
    assume e: "q = ''premiumType''"
    with res have f: "premiumType p = None"
      by (auto simp add: determine_next_question_family_def split: if_splits)
    from e k step obtain v where z: "payload' = Some (p\<lparr>premiumType := Some v\<rparr>)" "c' = c"
      by (auto simp add: process_user_answer_family_def with_family_def Let_def)
    with f show ?thesis
      by (simp add: questions_left_family_def internal_get_def split del: split_of_bool)
  next
    assume e: "q = ''insured_party''"
    with res have f: "internal_get p insured_party = None"
      by (auto simp add: determine_next_question_family_def split: if_splits)
    from e k step obtain i v w x where z:
        "internal p = Some i"
        "payload' = Some (p\<lparr>internal := Some (i\<lparr>insured_party := Some v\<rparr>),
                           withChildren := w, withSpouse := x\<rparr>)" "c' = c"
      by (auto simp add: process_user_answer_family_def with_internal_def Let_def
            split: option.splits if_splits)
    with f show ?thesis
      by (simp add: questions_left_family_def internal_get_def split del: split_of_bool)
  next
    assume e: "q = ''policyInceptionDate''"
    with res have f: "policyInceptionDate p = None"
      by (auto simp add: determine_next_question_family_def split: if_splits)
    from e k step obtain v where z: "payload' = Some (p\<lparr>policyInceptionDate := Some v\<rparr>)" "c' = c"
      by (auto simp add: process_user_answer_family_def with_family_def Let_def split: sum.splits)
    with f show ?thesis
      by (simp add: questions_left_family_def internal_get_def split del: split_of_bool)
  next
    assume e: "q = ''email''"
    with res have f: "internal_get p internal_email = None"
      by (auto simp add: determine_next_question_family_def split: if_splits)
    from e k step obtain i v where z:
        "internal p = Some i"
        "payload' = Some (p\<lparr>internal := Some (i\<lparr>internal_email := Some v\<rparr>)\<rparr>)" "c' = c"
      by (auto simp add: process_user_answer_family_def with_internal_def Let_def
            split: option.splits)
    with f show ?thesis
      by (simp add: questions_left_family_def internal_get_def split del: split_of_bool)
  next
    assume e: "q = ''contact_mobile''"
    with res have f: "internal_get p internal_contact_mobile = None"
      by (auto simp add: determine_next_question_family_def split: if_splits)
    from e k step obtain i v where z:
        "internal p = Some i"
        "payload' = Some (p\<lparr>internal := Some (i\<lparr>internal_contact_mobile := Some v\<rparr>)\<rparr>)" "c' = c"
      by (auto simp add: process_user_answer_family_def with_internal_def Let_def
            split: option.splits)
    with f show ?thesis
      by (simp add: questions_left_family_def internal_get_def split del: split_of_bool)
  next
    assume e: "q = ''promoCode''"
    with res have f: "promoCode p = None"
      by (auto simp add: determine_next_question_family_def split: if_splits)
    from e k step obtain v where z: "payload' = Some (p\<lparr>promoCode := Some v\<rparr>)" "c' = c"
      by (auto simp add: process_user_answer_family_def with_family_def Let_def)
    with f show ?thesis
      by (simp add: questions_left_family_def internal_get_def split del: split_of_bool)
  qed
qed

lemma run_family_accepted:
  assumes k: "current_question_key (conversation_context s) = Some q" "q \<noteq> []"
    and step: "process_user_answer_family m (ci_family_payload (collected_info s))
                 (conversation_context s) = Inr (payload', c', None)"
    and res: "determine_next_question_family payload' = Inr q'" "q' \<noteq> ''DONE''"
    and qt: "map_of QUESTION_MAP_family q' \<noteq> None"
  shows "snd (run_family_payload_agent now sid m (Some s)) =
           Some (s\<lparr>conversation_context :=
                     (conversation_context s)\<lparr>current_question_key := Some q'\<rparr>,
                   collected_info := (collected_info s)\<lparr>ci_family_payload := payload'\<rparr>,
                   last_active := now\<rparr>)"
  using assms
  by (auto simp add: run_family_payload_agent_def get_session_def
        set_collected_info_family_def set_current_question_key_def load_def Let_def falsy_def)

lemma run_family_turn:
  assumes aw: "awaiting_family st" and acc: "accepted_family now sid m st"
  shows "(reaches_done_family now sid m st \<and> fields_left_family st = 1) \<or>
         (\<not> reaches_done_family now sid m st \<and>
          awaiting_family (snd (run_family_payload_agent now sid m st)) \<and>
          fields_left_family (snd (run_family_payload_agent now sid m st)) + 1 =
            fields_left_family st)"
proof -
  from aw obtain s p q where s: "st = Some s" "ci_family_payload (collected_info s) = Some p"
      "current_question_key (conversation_context s) = Some q" "q \<noteq> ''DONE''"
      "determine_next_question_family (Some p) = Inr q"
    by (auto simp add: awaiting_family_def split: option.splits)
  let ?c = "conversation_context s"
  from acc s have "\<exists>payload' c'. process_user_answer_family m (Some p) ?c = Inr (payload', c', None)"
    by (auto simp add: accepted_family_def load_def Let_def split: sum.splits option.splits)
  then obtain payload' c' where pua:
      "process_user_answer_family m (Some p) ?c = Inr (payload', c', None)"
    by blast
  from family_progress [OF s(5) s(4) s(3) pua] obtain p' where p':
      "payload' = Some p'" "c' = ?c" "questions_left_family p' + 1 = questions_left_family p"
    by blast
  from family_resolver_total obtain q' where q': "determine_next_question_family (Some p') = Inr q'"
    by blast
  have rd: "reaches_done_family now sid m st \<longleftrightarrow> q' = ''DONE''"
    using s pua p' q' by (simp add: reaches_done_family_def load_def)
  have fl: "fields_left_family st = questions_left_family p"
    using s by (simp add: fields_left_family_def)
  show ?thesis
  proof (cases "q' = ''DONE''")
    case True
    with q' have "questions_left_family p' = 0" by (simp add: family_resolver_done_iff)
    with p'(3) True rd fl show ?thesis by simp
  next
    case False
    from family_resolver_labels [OF s(5)] s(4) have qne: "q \<noteq> []" by auto
    from family_resolver_labels [OF q'] False have qt: "map_of QUESTION_MAP_family q' \<noteq> None"
      by (auto simp add: QUESTION_MAP_family_def)
    from pua s have step': "process_user_answer_family m (ci_family_payload (collected_info s)) ?c =
        Inr (payload', c', None)"
      by simp
    from q' p' have res': "determine_next_question_family payload' = Inr q'" by simp
    have st': "snd (run_family_payload_agent now sid m st) =
        Some (s\<lparr>conversation_context := ?c\<lparr>current_question_key := Some q'\<rparr>,
                collected_info := (collected_info s)\<lparr>ci_family_payload := payload'\<rparr>,
                last_active := now\<rparr>)"
      unfolding s(1)
      by (rule run_family_accepted [OF s(3) qne step' res' False qt])
    have aw': "awaiting_family (snd (run_family_payload_agent now sid m st))"
      using q' False p'(1) by (simp add: st' awaiting_family_def)
    have fl': "fields_left_family (snd (run_family_payload_agent now sid m st)) =
               questions_left_family p'"
      using p'(1) by (simp add: st' fields_left_family_def)
    from False rd aw' p'(3) show ?thesis
      unfolding fl fl' by simp
  qed
qed

lemma awaiting_family_fields_left:
  assumes "awaiting_family st"
  shows "0 < fields_left_family st"
proof -
  from assms obtain s p q where s: "st = Some s" "ci_family_payload (collected_info s) = Some p"
      "q \<noteq> ''DONE''" "determine_next_question_family (Some p) = Inr q"
    by (auto simp add: awaiting_family_def split: option.splits)
  from s(3) s(4) have "questions_left_family p \<noteq> 0"
    using family_resolver_done_iff [of p] by auto
  with s show ?thesis by (simp add: fields_left_family_def)
qed

lemma family_turns_count:
  assumes "awaiting_family st" "all_accepted_family sid ms st" "length ms < fields_left_family st"
  shows "awaiting_family (family_turns sid ms st) \<and>
         fields_left_family (family_turns sid ms st) + length ms = fields_left_family st"
  using assms
proof (induction ms arbitrary: st)
  case Nil
  then show ?case by simp
next
  case (Cons x ms)
  obtain now m where x: "x = (now, m)" by (cases x)
  let ?st = "snd (run_family_payload_agent now sid m st)"
  from Cons.prems x have acc: "accepted_family now sid m st"
    and rest: "all_accepted_family sid ms ?st"
    and len: "length ms + 1 < fields_left_family st"
    by simp_all
  from run_family_turn [OF Cons.prems(1) acc] len
  have nx: "awaiting_family ?st" "fields_left_family ?st + 1 = fields_left_family st"
    by auto
  from nx(2) len have "length ms < fields_left_family ?st" by simp
  from Cons.IH [OF nx(1) rest this] nx(2) x show ?case by simp
qed

lemma all_accepted_family_append:
  "all_accepted_family sid (ms @ ns) st \<longleftrightarrow>
     all_accepted_family sid ms st \<and> all_accepted_family sid ns (family_turns sid ms st)"
  by (induction ms arbitrary: st) auto

lemma family_done_after:
  assumes "awaiting_family st" "all_accepted_family sid (ms @ [(now, m)]) st"
    and "length ms + 1 = fields_left_family st"
  shows "reaches_done_family now sid m (family_turns sid ms st)"
proof -
  from assms(2) have a: "all_accepted_family sid ms st"
    and b: "accepted_family now sid m (family_turns sid ms st)"
    by (simp_all add: all_accepted_family_append)
  from assms(3) have "length ms < fields_left_family st" by simp
  from family_turns_count [OF assms(1) a this] assms(3)
  have c: "awaiting_family (family_turns sid ms st)"
    "fields_left_family (family_turns sid ms st) = 1"
    by simp_all
  from run_family_turn [OF c(1) b] c(2) awaiting_family_fields_left
  show ?thesis by fastforce
qed

lemma merge_context_same: "merge_context c c = c"
  by (simp add: merge_context_iff keep_simps)

lemma policy_type_turn:
  assumes "current_question_key (conversation_context s) = Some ''policy_type''"
  shows "awaiting (snd (run_travel_payload_agent now sid m (Some s)))"
proof -
  let ?c = "conversation_context s"
  obtain p' c' where step:
      "answer_step ''policy_type'' (strip m) (ci_payload (collected_info s)) ?c =
         Inr (False, Some p', c', None)"
      and p': "p' = get_annual_trip_template \<or> p' = get_single_trip_template"
      and mg: "merge_context c' ?c = c'"
    by (cases "contains ''annual'' (lower (strip m))")
       (auto simp add: answer_step_def merge_context_iff keep_simps)
  from resolver_total obtain q' where q': "determine_next_question (Some p') c' = Inr q'"
    by blast
  from p' have "falsy (email (leads p'))"
    by (auto simp add: get_annual_trip_template_def get_single_trip_template_def falsy_def)
  with next_question_conditions [OF q'] have nd: "q' \<noteq> ''DONE''" by auto
  from resolver_labels [OF q'] nd have qt: "map_of QUESTION_MAP q' \<noteq> None" by simp
  have "''policy_type'' \<noteq> []" by simp
  from run_travel_accepted [OF assms this step mg q' nd qt, of now sid]
  show ?thesis
    using q' nd by (simp add: awaiting_def resolver_key)
qed

lemma questions_left_family_bound: "questions_left_family p \<le> 6"
  by (simp add: questions_left_family_def)

lemma single_trip_collection:
  "current_question_key (conversation_context policy_session) = Some ''policy_type''"
  "accepted 2 ''s'' ''myself'' asked_store" "branches_left asked_store = 2"
  "\<not> reaches_done 2 ''s'' ''myself'' asked_store"
  "branches_left chosen_store = 0" "fields_left chosen_store = 8"
  "all_accepted ''s'' single_trip_answers chosen_store"
  "all_accepted ''s'' (single_trip_answers @ [(10, ''91234567'')]) chosen_store"
  "length single_trip_answers = 7"
  by code_simp+

lemma family_collection:
  "awaiting_family family_asked_store" "fields_left_family family_asked_store = 5"
  "all_accepted_family ''s'' family_answers family_asked_store"
  "all_accepted_family ''s'' (family_answers @ [(6, ''no'')]) family_asked_store"
  "length family_answers = 4"
  by code_simp+

subsection \<open>Answered questions and the end of a collection\<close>

text \<open>
  Claim C3, amended. For both products, once the Answer Processor has accepted a
  non-blank answer to the awaited question (no exception, no validation message), the
  Resolver does not return that question's label for the resulting payload and context.
  The one exception is \<open>household_info\<close>, asked once per declared household: every
  accepted answer to it raises \<open>households_collected\<close> by one and leaves
  \<open>households_to_collect\<close> alone, and the Resolver returns the label only while the
  first is below the second.

  Every sequence of accepted answers reaches \<open>DONE\<close>. The answer to the policy-type
  question leaves the travel session awaiting the Resolver's question. While a question
  that decides the branch is open (at most two are: the group type and the number of
  households), an accepted answer reaches \<open>DONE\<close> or closes one of them and leaves the
  session awaiting again. Once none is open, each accepted answer lowers the number of
  unanswered applicable fields by one and leaves the session awaiting, until the
  accepted answer whose number is that of the unanswered applicable fields, with which
  the Resolver returns \<open>DONE\<close>, and not before. That number is at most 11 plus the
  households that remain to be described. The family agent has no branch question: the
  number of accepted answers to \<open>DONE\<close> is the number of its unanswered fields, at most 6.
\<close>

theorem answered_question_not_repeated:
  "(q \<in> set travel_labels \<and> q \<noteq> ''household_info'' \<and>
    current_question_key context = Some q \<and> strip user_message \<noteq> [] \<and>
    process_user_answer now sid user_message payload context st =
      Inr ((payload', context', None), st')
    \<longrightarrow> determine_next_question payload' context' \<noteq> Inr q) \<and>
   (current_question_key hcontext = Some ''household_info'' \<and>
    process_user_answer now sid hmessage hpayload hcontext st =
      Inr ((hpayload', hcontext', v), hst')
    \<longrightarrow> or0 (households_collected hcontext') = or0 (households_collected hcontext) + 1 \<and>
        households_to_collect hcontext' = households_to_collect hcontext \<and>
        (determine_next_question hpayload' hcontext' = Inr ''household_info'' \<longrightarrow>
           or0 (households_collected hcontext') < or0 (households_to_collect hcontext'))) \<and>
   (fq \<in> set family_labels \<and> current_question_key fcontext = Some fq \<and>
    process_user_answer_family fmessage fpayload fcontext = Inr (fpayload', fcontext', None)
    \<longrightarrow> determine_next_question_family fpayload' \<noteq> Inr fq) \<and>
   (current_question_key (conversation_context ps) = Some ''policy_type''
    \<longrightarrow> awaiting (snd (run_travel_payload_agent pnow sid pm (Some ps)))) \<and>
   (awaiting bst \<and> accepted bnow sid bm bst \<and> 0 < branches_left bst
    \<longrightarrow> reaches_done bnow sid bm bst \<or>
        (awaiting (snd (run_travel_payload_agent bnow sid bm bst)) \<and>
         branches_left (snd (run_travel_payload_agent bnow sid bm bst)) < branches_left bst)) \<and>
   branches_left bst \<le> 2 \<and>
   (awaiting tst \<and> branches_left tst = 0 \<and> all_accepted sid ms tst \<and> length ms < fields_left tst
    \<longrightarrow> awaiting (travel_turns sid ms tst) \<and> branches_left (travel_turns sid ms tst) = 0 \<and>
        fields_left (travel_turns sid ms tst) + length ms = fields_left tst) \<and>
   (awaiting tst \<and> branches_left tst = 0 \<and> all_accepted sid (ms @ [(tnow, tm)]) tst \<and>
    length ms + 1 = fields_left tst
    \<longrightarrow> reaches_done tnow sid tm (travel_turns sid ms tst)) \<and>
   questions_left tp tc \<le>
     11 + nat (or0 (households_to_collect tc) - or0 (households_collected tc)) \<and>
   (awaiting_family fam_st \<and> all_accepted_family sid fam_ms fam_st \<and>
    length fam_ms < fields_left_family fam_st
    \<longrightarrow> awaiting_family (family_turns sid fam_ms fam_st) \<and>
        fields_left_family (family_turns sid fam_ms fam_st) + length fam_ms =
          fields_left_family fam_st) \<and>
   (awaiting_family fam_st \<and> all_accepted_family sid (fam_ms @ [(fam_now, fam_m)]) fam_st \<and>
    length fam_ms + 1 = fields_left_family fam_st
    \<longrightarrow> reaches_done_family fam_now sid fam_m (family_turns sid fam_ms fam_st)) \<and>
   questions_left_family fam_p \<le> 6"
proof (intro conjI impI)
  assume h: "q \<in> set travel_labels \<and> q \<noteq> ''household_info'' \<and>
    current_question_key context = Some q \<and> strip user_message \<noteq> [] \<and>
    process_user_answer now sid user_message payload context st =
      Inr ((payload', context', None), st')"
  then obtain r where "answer_step q (strip user_message) payload context = Inr (r, payload', context', None)"
    using process_user_answer_step by blast
  with h show "determine_next_question payload' context' \<noteq> Inr q"
    using travel_not_again by blast
next
  assume h: "current_question_key hcontext = Some ''household_info'' \<and>
    process_user_answer now sid hmessage hpayload hcontext st =
      Inr ((hpayload', hcontext', v), hst')"
  then obtain r where r: "answer_step ''household_info'' (strip hmessage) hpayload hcontext =
      Inr (r, hpayload', hcontext', v)"
    using process_user_answer_step by blast
  from household_progress [OF r]
  show "or0 (households_collected hcontext') = or0 (households_collected hcontext) + 1" by simp
  from household_progress [OF r]
  show "households_to_collect hcontext' = households_to_collect hcontext" by simp
  assume "determine_next_question hpayload' hcontext' = Inr ''household_info''"
  from next_question_needs [OF this]
  show "or0 (households_collected hcontext') < or0 (households_to_collect hcontext')" by simp
next
  assume "fq \<in> set family_labels \<and> current_question_key fcontext = Some fq \<and>
    process_user_answer_family fmessage fpayload fcontext = Inr (fpayload', fcontext', None)"
  then show "determine_next_question_family fpayload' \<noteq> Inr fq"
    using family_not_again by blast
next
  assume "current_question_key (conversation_context ps) = Some ''policy_type''"
  then show "awaiting (snd (run_travel_payload_agent pnow sid pm (Some ps)))"
    by (rule policy_type_turn)
next
  assume h: "awaiting bst \<and> accepted bnow sid bm bst \<and> 0 < branches_left bst"
  then have "awaiting bst" "accepted bnow sid bm bst" by simp_all
  from run_travel_turn [OF this] h
  show "reaches_done bnow sid bm bst \<or>
        (awaiting (snd (run_travel_payload_agent bnow sid bm bst)) \<and>
         branches_left (snd (run_travel_payload_agent bnow sid bm bst)) < branches_left bst)"
    by (auto split: if_splits)
next
  show "branches_left bst \<le> 2"
    using branch_left_bound by (simp add: branches_left_def split: option.splits)
next
  assume h: "awaiting tst \<and> branches_left tst = 0 \<and> all_accepted sid ms tst \<and>
             length ms < fields_left tst"
  then have "awaiting tst" "branches_left tst = 0" "all_accepted sid ms tst"
    "length ms < fields_left tst" by simp_all
  from travel_turns_count [OF this]
  show "awaiting (travel_turns sid ms tst)" "branches_left (travel_turns sid ms tst) = 0"
    "fields_left (travel_turns sid ms tst) + length ms = fields_left tst"
    by simp_all
next
  assume h: "awaiting tst \<and> branches_left tst = 0 \<and> all_accepted sid (ms @ [(tnow, tm)]) tst \<and>
             length ms + 1 = fields_left tst"
  then have "awaiting tst" "branches_left tst = 0" "all_accepted sid (ms @ [(tnow, tm)]) tst"
    "length ms + 1 = fields_left tst" by simp_all
  then show "reaches_done tnow sid tm (travel_turns sid ms tst)"
    by (rule travel_done_after)
next
  show "questions_left tp tc \<le>
     11 + nat (or0 (households_to_collect tc) - or0 (households_collected tc))"
    by (rule questions_left_bound)
next
  assume h: "awaiting_family fam_st \<and> all_accepted_family sid fam_ms fam_st \<and>
             length fam_ms < fields_left_family fam_st"
  then have "awaiting_family fam_st" "all_accepted_family sid fam_ms fam_st"
    "length fam_ms < fields_left_family fam_st" by simp_all
  from family_turns_count [OF this]
  show "awaiting_family (family_turns sid fam_ms fam_st)"
    "fields_left_family (family_turns sid fam_ms fam_st) + length fam_ms =
       fields_left_family fam_st"
    by simp_all
next
  assume h: "awaiting_family fam_st \<and>
             all_accepted_family sid (fam_ms @ [(fam_now, fam_m)]) fam_st \<and>
             length fam_ms + 1 = fields_left_family fam_st"
  then have "awaiting_family fam_st" "all_accepted_family sid (fam_ms @ [(fam_now, fam_m)]) fam_st"
    "length fam_ms + 1 = fields_left_family fam_st" by simp_all
  then show "reaches_done_family fam_now sid fam_m (family_turns sid fam_ms fam_st)"
    by (rule family_done_after)
next
  show "questions_left_family fam_p \<le> 6" by (rule questions_left_family_bound)
qed

text \<open>
  An email address answered in a single-trip conversation, a household described, and
  an email address answered in a family conversation; then a single trip for one
  traveller from the policy-type question on: the answer \<open>single\<close> leaves the session
  awaiting, the answer \<open>myself\<close> closes both branch questions, eight fields remain,
  seven accepted answers leave one, and the eighth reaches \<open>DONE\<close>; and a family
  conversation, where five fields remain after the first message and the fifth accepted
  answer reaches \<open>DONE\<close>.
\<close>

theorem answered_question_not_repeated_witness:
  "(case process_user_answer 0 ''s'' ''me@example.com'' (Some awaiting_email_payload)
           awaiting_email_context None of
      Inr ((payload', context', None), st') \<Rightarrow>
         determine_next_question payload' context' \<noteq> Inr ''email''
    | _ \<Rightarrow> False) \<and>
   (case process_user_answer 0 ''s'' ''2,1'' (Some get_single_trip_template) households_context None of
      Inr ((payload', context', v), st') \<Rightarrow>
         or0 (households_collected context') = or0 (households_collected households_context) + 1 \<and>
         households_to_collect context' = households_to_collect households_context
    | _ \<Rightarrow> False) \<and>
   (case process_user_answer_family ''me@example.com'' (Some family_email_payload)
           (empty_context\<lparr>current_question_key := Some ''email''\<rparr>) of
      Inr (payload', context', None) \<Rightarrow> determine_next_question_family payload' \<noteq> Inr ''email''
    | _ \<Rightarrow> False) \<and>
   awaiting asked_store \<and>
   awaiting chosen_store \<and> branches_left chosen_store < branches_left asked_store \<and>
   awaiting (travel_turns ''s'' single_trip_answers chosen_store) \<and>
   fields_left (travel_turns ''s'' single_trip_answers chosen_store) = 1 \<and>
   reaches_done 10 ''s'' ''91234567'' (travel_turns ''s'' single_trip_answers chosen_store) \<and>
   awaiting_family (family_turns ''s'' family_answers family_asked_store) \<and>
   fields_left_family (family_turns ''s'' family_answers family_asked_store) = 1 \<and>
   reaches_done_family 6 ''s'' ''no'' (family_turns ''s'' family_answers family_asked_store)"
proof -
  let ?p1 = "Some (awaiting_email_payload\<lparr>leads := \<lparr>email = Some ''me@example.com'', contact_mobile = None\<rparr>\<rparr>)"
  let ?st1 = "update_conversation_context 0 ''s'' awaiting_email_context None"
  let ?c2 = "households_context\<lparr>households_collected := Some 1,
                households_data := Some [\<lparr>adults = 2, children = 1\<rparr>]\<rparr>"
  let ?st2 = "update_conversation_context 0 ''s'' ?c2 None"
  let ?fc = "empty_context\<lparr>current_question_key := Some ''email''\<rparr>"
  let ?fp = "Some (family_email_payload\<lparr>internal := Some \<lparr>internal_email = Some ''me@example.com'',
                 internal_contact_mobile = None, insured_party = Some ''myself''\<rparr>\<rparr>)"
  have t: "process_user_answer 0 ''s'' ''me@example.com'' (Some awaiting_email_payload)
             awaiting_email_context None = Inr ((?p1, awaiting_email_context, None), ?st1)"
    by code_simp
  have h: "process_user_answer 0 ''s'' ''2,1'' (Some get_single_trip_template) households_context None =
             Inr ((Some get_single_trip_template, ?c2, None), ?st2)"
    by code_simp
  have f: "process_user_answer_family ''me@example.com'' (Some family_email_payload) ?fc =
             Inr (?fp, ?fc, None)"
    by code_simp
  have k: "''email'' \<in> set travel_labels" "''email'' \<noteq> ''household_info''"
    "current_question_key awaiting_email_context = Some ''email''"
    "strip ''me@example.com'' \<noteq> []"
    "current_question_key households_context = Some ''household_info''"
    "''email'' \<in> set family_labels" "current_question_key ?fc = Some ''email''"
    by code_simp+
  note th = answered_question_not_repeated [of "''email''" awaiting_email_context "''me@example.com''"
        0 "''s''" "Some awaiting_email_payload" None ?p1 awaiting_email_context ?st1
        households_context "''2,1''" "Some get_single_trip_template" "Some get_single_trip_template"
        ?c2 None ?st2 "''email''" ?fc "''me@example.com''" "Some family_email_payload" ?fp ?fc
        policy_session 1 "''single''" asked_store 2 "''myself''" chosen_store single_trip_answers
        10 "''91234567''" get_single_trip_template empty_context
        family_asked_store family_answers 6 "''no''" get_family_payload_template]
  have old: "(case process_user_answer 0 ''s'' ''me@example.com'' (Some awaiting_email_payload)
           awaiting_email_context None of
      Inr ((payload', context', None), st') \<Rightarrow>
         determine_next_question payload' context' \<noteq> Inr ''email''
    | _ \<Rightarrow> False) \<and>
   (case process_user_answer 0 ''s'' ''2,1'' (Some get_single_trip_template) households_context None of
      Inr ((payload', context', v), st') \<Rightarrow>
         or0 (households_collected context') = or0 (households_collected households_context) + 1 \<and>
         households_to_collect context' = households_to_collect households_context
    | _ \<Rightarrow> False) \<and>
   (case process_user_answer_family ''me@example.com'' (Some family_email_payload)
           (empty_context\<lparr>current_question_key := Some ''email''\<rparr>) of
      Inr (payload', context', None) \<Rightarrow> determine_next_question_family payload' \<noteq> Inr ''email''
    | _ \<Rightarrow> False)"
    using th t h f k by simp
  have a1: "awaiting asked_store"
    using th single_trip_collection(1) by (simp add: asked_store_def)
  have a2: "awaiting chosen_store \<and> branches_left chosen_store < branches_left asked_store"
    using th a1 single_trip_collection(2,3,4) by (simp add: chosen_store_def)
  have a3: "awaiting (travel_turns ''s'' single_trip_answers chosen_store) \<and>
            fields_left (travel_turns ''s'' single_trip_answers chosen_store) = 1"
    using th a2 single_trip_collection(5,6,7,9) by simp
  have a4: "reaches_done 10 ''s'' ''91234567'' (travel_turns ''s'' single_trip_answers chosen_store)"
    using th a2 single_trip_collection(5,6,8,9) by simp
  have b3: "awaiting_family (family_turns ''s'' family_answers family_asked_store) \<and>
            fields_left_family (family_turns ''s'' family_answers family_asked_store) = 1"
    using th family_collection(1,2,3,5) by simp
  have b4: "reaches_done_family 6 ''s'' ''no'' (family_turns ''s'' family_answers family_asked_store)"
    using th family_collection(1,2,4,5) by simp
  from old a1 a2 a3 a4 b3 b4 show ?thesis by simp
qed

text \<open>
  Claim C3 as stated fails: with two households declared, the answer \<open>2,1\<close> to
  \<open>household_info\<close> is applied, and the Resolver returns \<open>household_info\<close> again.
\<close>

theorem household_question_repeated:
  "(case converse travel_classifier no_api 0 ''s'' household_messages None of
      (replies, Some s) \<Rightarrow>
         replies =
           [Text ''Are you looking for a **Single Trip** or an **Annual Multi-Trip** policy?'',
            Text ''Who will be traveling? (Yourself, Family, Group of Adults, or Group of Family)'',
            Text ''How many families (households) are traveling together?'',
            Text ''For family #{num}, how many adults and children?'',
            Text ''For family #{num}, how many adults and children?''] \<and>
         households_data (conversation_context s) = Some [\<lparr>adults = 2, children = 1\<rparr>] \<and>
         current_question_key (conversation_context s) = Some ''household_info''
    | _ \<Rightarrow> False) \<and>
   (case process_user_answer 0 ''s'' ''2,1'' (Some get_single_trip_template) households_context None of
      Inr ((payload', context', None), st') \<Rightarrow>
         households_collected context' = Some 1 \<and>
         determine_next_question payload' context' = Inr ''household_info''
    | _ \<Rightarrow> False)"
  by code_simp

subsection \<open>A request that fails\<close>




















end
